theory Spec2Isabelle
  imports Complex_Main "HOL-Library.AList"
begin

section \<open>JavaScript values\<close>

text \<open>
  The adapter only compares numbers and takes their minimum, so a number is modelled by
  its exact value: a finite double is the rational it denotes, next to the two infinities
  and NaN. No rounding operation of IEEE arithmetic is used by the code. The two zeros of
  IEEE are one value here (both are falsy and compare equal in JavaScript).
\<close>

datatype jsnum = NaN | NegInf | Fin rat | PosInf

text \<open>
  A value is a primitive, an array or an object. An object is given by its own
  enumerable entries in the order \<open>Object.entries\<close> lists them, with distinct keys; a key
  may be any string, \<open>__proto__\<close> too, as in what \<open>JSON.parse\<close> returns. The prototype of an
  object that the code receives is \<open>Object.prototype\<close>. Values are finite trees: a query
  that comes from a request has no cycles.
\<close>

datatype jsval =
    JUndefined
  | JNull
  | JBool bool
  | JNum jsnum
  | JStr string
  | JArr "jsval list"
  | JObj "(string \<times> jsval) list"

type_synonym entries = "(string \<times> jsval) list"

text \<open>Truthiness of a number: everything but zero and NaN.\<close>

fun truthy_num :: "jsnum \<Rightarrow> bool" where
  "truthy_num NaN = False"
| "truthy_num (Fin q) = (q \<noteq> 0)"
| "truthy_num _ = True"

text \<open>\<open>ToBoolean\<close>: the falsy values are undefined, null, false, 0, NaN and the empty string.\<close>

fun truthy :: "jsval \<Rightarrow> bool" where
  "truthy JUndefined = False"
| "truthy JNull = False"
| "truthy (JBool b) = b"
| "truthy (JNum n) = truthy_num n"
| "truthy (JStr s) = (s \<noteq> [])"
| "truthy (JArr _) = True"
| "truthy (JObj _) = True"

text \<open>\<open>a || b\<close>: the first operand when it is truthy, the second otherwise.\<close>

definition jsOr :: "jsval \<Rightarrow> jsval \<Rightarrow> jsval" where
  "jsOr a b = (if truthy a then a else b)"

text \<open>Reading a property of an object: \<open>undefined\<close> when the key is absent.\<close>

definition get_prop :: "entries \<Rightarrow> string \<Rightarrow> jsval" where
  "get_prop obj k = (case map_of obj k of None \<Rightarrow> JUndefined | Some v \<Rightarrow> v)"

text \<open>
  Defining an own entry overwrites it in place or appends a new one; deleting removes
  it. The spread \<open>{...v}\<close> defines each entry it copies; an assignment \<open>obj[k] = v\<close> defines
  one unless it ends at the setter of the prototype (see \<open>js_put\<close> below).
\<close>

definition obj_set :: "entries \<Rightarrow> string \<Rightarrow> jsval \<Rightarrow> entries" where
  "obj_set obj k v = AList.update k v obj"

definition obj_delete :: "entries \<Rightarrow> string \<Rightarrow> entries" where
  "obj_delete obj k = AList.delete k obj"

text \<open>\<open>Math.min\<close> on two numbers: NaN if either is NaN, the smaller one otherwise.\<close>

fun Math_min :: "jsnum \<Rightarrow> jsnum \<Rightarrow> jsnum" where
  "Math_min NaN _ = NaN"
| "Math_min _ NaN = NaN"
| "Math_min NegInf _ = NegInf"
| "Math_min _ NegInf = NegInf"
| "Math_min PosInf y = y"
| "Math_min x PosInf = x"
| "Math_min (Fin a) (Fin b) = Fin (min a b)"

text \<open>\<open>Number.MAX_VALUE\<close>, the largest finite double: \<open>(2^53 - 1) * 2^971\<close>.\<close>

definition MAX_VALUE :: jsnum where
  "MAX_VALUE = Fin (of_int ((2 ^ 53 - 1) * 2 ^ 971))"

section \<open>Pagination clamping: \<open>StripeAdapter.getLimit\<close>\<close>

text \<open>
  The pagination policy of the adapter options. Its two fields are numbers when they are
  present; the constructor's own default is \<open>{default: 10, max: 100}\<close>.
\<close>

record policy =
  default_limit :: "jsnum option"
  max_limit :: "jsnum option"

text \<open>A field of the policy as the value the code reads: \<open>undefined\<close> when absent.\<close>

definition policy_field :: "jsnum option \<Rightarrow> jsval" where
  "policy_field f = (case f of None \<Rightarrow> JUndefined | Some n \<Rightarrow> JNum n)"

text \<open>\<open>paginate.default || 0\<close>, as a number.\<close>

definition base_limit :: "policy \<Rightarrow> jsnum" where
  "base_limit p = (case jsOr (policy_field (default_limit p)) (JNum (Fin 0)) of JNum n \<Rightarrow> n | _ \<Rightarrow> Fin 0)"

text \<open>\<open>typeof limit === 'number' && !isNaN(limit) ? limit : base\<close>\<close>

definition lower_limit :: "jsval \<Rightarrow> jsnum \<Rightarrow> jsnum" where
  "lower_limit limit base = (case limit of JNum n \<Rightarrow> (if n \<noteq> NaN then n else base) | _ \<Rightarrow> base)"

text \<open>\<open>typeof paginate.max === 'number' ? paginate.max : Number.MAX_VALUE\<close>\<close>

definition upper_limit :: "policy \<Rightarrow> jsnum" where
  "upper_limit p = (case max_limit p of Some m \<Rightarrow> m | None \<Rightarrow> MAX_VALUE)"

text \<open>
  \<open>getLimit (limit, paramsPaginate)\<close>. The first argument is \<open>this.options.paginate\<close>:
  \<open>None\<close> stands for a falsy value there (\<open>false\<close> or \<open>undefined\<close>).
\<close>

definition getLimit :: "policy option \<Rightarrow> jsval \<Rightarrow> jsval \<Rightarrow> jsval" where
  "getLimit paginate limit paramsPaginate =
     (if paramsPaginate = JBool False then limit
      else case paginate of
        None \<Rightarrow> limit
      | Some p \<Rightarrow>
          if truthy (jsOr (policy_field (default_limit p)) (policy_field (max_limit p)))
          then JNum (Math_min (lower_limit limit (base_limit p)) (upper_limit p))
          else limit)"

text \<open>The spec's "L or D": L when L is a number, D otherwise.\<close>

definition requested_or_default :: "jsval \<Rightarrow> jsnum \<Rightarrow> jsnum" where
  "requested_or_default L D = (case L of JNum n \<Rightarrow> (if n = NaN then D else n) | _ \<Rightarrow> D)"

section \<open>Own entries, prototypes and the objects the code builds\<close>

text \<open>The decimal name of an array index, as a property key.\<close>

fun index_key :: "nat \<Rightarrow> string" where
  "index_key n =
     (if n < 10 then [char_of (48 + n)]
      else index_key (n div 10) @ [char_of (48 + n mod 10)])"

declare index_key.simps [simp del]

text \<open>
  The own enumerable entries of a value, which \<open>Object.assign({}, v)\<close> and the spread
  \<open>{...v}\<close> read: those of an object, the indexed elements of an array or a string, and
  nothing for the other primitives, \<open>undefined\<close> and \<open>null\<close>.
\<close>

fun own_entries :: "jsval \<Rightarrow> entries" where
  "own_entries (JObj obj) = obj"
| "own_entries (JArr items) = zip (map index_key [0..<length items]) items"
| "own_entries (JStr s) = zip (map index_key [0..<length s]) (map (\<lambda>c. JStr [c]) s)"
| "own_entries _ = []"

text \<open>
  An object that the code builds and assigns to: its own entries and its prototype,
  \<open>None\<close> for \<open>Object.prototype\<close>, with which \<open>{}\<close> starts, and \<open>Some v\<close> once the prototype
  was set to \<open>v\<close>. When such an object is handed on, as a result or to the SDK, it is
  given by its own entries: they are what \<open>Object.entries\<close>, \<open>Object.assign\<close> and an
  encoder enumerate.
\<close>

record jsobject =
  proto :: "jsval option"
  own :: entries

definition empty_object :: jsobject where
  "empty_object = \<lparr>proto = None, own = []\<rparr>"

text \<open>
  The values of type Object or Null: what the setter of \<open>Object.prototype.__proto__\<close>
  accepts as a prototype. It ignores every other value.
\<close>

fun object_or_null :: "jsval \<Rightarrow> bool" where
  "object_or_null JNull = True"
| "object_or_null (JArr items) = True"
| "object_or_null (JObj obj) = True"
| "object_or_null _ = False"

text \<open>
  Whether the search for \<open>__proto__\<close> along the prototypes ends at the accessor of
  \<open>Object.prototype\<close>. It does not when the prototype is \<open>null\<close>, nor when the prototype
  has an own entry of that name, which is found first.
\<close>

fun reaches_accessor :: "jsval option \<Rightarrow> bool" where
  "reaches_accessor None = True"
| "reaches_accessor (Some (JObj obj)) = (map_of obj ''__proto__'' = None)"
| "reaches_accessor (Some (JArr items)) = True"
| "reaches_accessor (Some _) = False"

text \<open>
  \<open>obj[key] = v\<close>. Every key but \<open>__proto__\<close> becomes an own entry, overwritten in place
  or appended. The key \<open>__proto__\<close> does so only if the object has that own entry already
  or the accessor is out of reach; otherwise the setter runs: it makes \<open>v\<close> the prototype
  if \<open>v\<close> is an object or \<open>null\<close>, does nothing if not, and stores no entry.
\<close>

definition js_put :: "jsobject \<Rightarrow> string \<Rightarrow> jsval \<Rightarrow> jsobject" where
  "js_put obj key v =
     (if key = ''__proto__'' \<and> map_of (own obj) key = None \<and> reaches_accessor (proto obj)
      then (if object_or_null v then obj\<lparr>proto := Some v\<rparr> else obj)
      else obj\<lparr>own := obj_set (own obj) key v\<rparr>)"

text \<open>\<open>delete obj[key]\<close> removes the own entry.\<close>

definition js_delete :: "jsobject \<Rightarrow> string \<Rightarrow> jsobject" where
  "js_delete obj key = obj\<lparr>own := obj_delete (own obj) key\<rparr>"

text \<open>
  \<open>obj.key\<close> for a key that no built-in prototype defines (\<open>limit\<close>, \<open>$limit\<close>): the own
  entry, or else the entry of the prototype.
\<close>

definition js_get :: "jsobject \<Rightarrow> string \<Rightarrow> jsval" where
  "js_get obj key =
     (case map_of (own obj) key of
        Some v \<Rightarrow> v
      | None \<Rightarrow> (case proto obj of None \<Rightarrow> JUndefined | Some p \<Rightarrow> get_prop (own_entries p) key))"

text \<open>
  \<open>Object.assign({}, source)\<close> assigns each own entry of the source to a new object, in
  order. An own entry \<open>__proto__\<close> of the source is therefore not copied: it goes to the
  setter.
\<close>

definition Object_assign :: "jsval \<Rightarrow> jsobject" where
  "Object_assign source =
     foldl (\<lambda>target (key, val). js_put target key val) empty_object (own_entries source)"

section \<open>Query normalization: \<open>StripeAdapter.cleanQuery\<close>\<close>

text \<open>\<open>key.startsWith('$')\<close>\<close>

definition startsWith_dollar :: "string \<Rightarrow> bool" where
  "startsWith_dollar key = (case key of [] \<Rightarrow> False | c # _ \<Rightarrow> c = CHR ''$'')"

text \<open>\<open>key.replace('$', '')\<close>: the first occurrence of the character is removed.\<close>

definition replace_dollar :: "string \<Rightarrow> string" where
  "replace_dollar key = remove1 (CHR ''$'') key"

text \<open>
  The key under which the callback of \<open>forEach\<close> stores an entry: \<open>cleanKey\<close> is the key
  itself, or the key without its first \<open>$\<close> when it starts with one.
\<close>

definition cleanKey :: "string \<Rightarrow> string" where
  "cleanKey key = (if startsWith_dollar key then replace_dollar key else key)"

text \<open>
  The callback of \<open>forEach\<close>, with the already normalized value: \<open>result\<close> is the object
  under construction, from which an entry with a \<open>$\<close> key is deleted first.
\<close>

definition clean_entry :: "jsobject \<Rightarrow> string \<Rightarrow> jsval \<Rightarrow> jsobject" where
  "clean_entry result key cleaned =
     js_put (if startsWith_dollar key then js_delete result key else result)
       (cleanKey key) cleaned"

text \<open>
  \<open>cleanQuery (query)\<close>. \<open>Array.isArray\<close> holds of \<open>JArr\<close> and \<open>_.isObject\<close> (a non-null
  object that is no array) of \<open>JObj\<close>. \<open>result\<close> is \<open>Object.assign({}, query)\<close>, and
  \<open>Object.entries(result)\<close> is taken once, before the loop changes \<open>result\<close>.
\<close>

function (sequential) cleanQuery :: "jsval \<Rightarrow> jsval" where
  "cleanQuery (JArr items) = JArr (map cleanQuery items)"
| "cleanQuery (JObj query) =
     JObj (own (foldl (\<lambda>result (key, val). clean_entry result key (cleanQuery val))
       (Object_assign (JObj query)) (own (Object_assign (JObj query)))))"
| "cleanQuery query = query"
  by pat_completeness auto

text \<open>
  The recursion ends: the entries of the copy are entries of the query, so each value
  the loop normalizes is a part of the query.
\<close>

termination
proof (relation "measure size")
  show "wf (measure size)" by simp
next
  fix items :: "jsval list" and x
  assume "x \<in> set items"
  then show "(x, JArr items) \<in> measure size"
    by (induction items) auto
next
  fix query :: entries and z x y
  assume z: "z \<in> set (own (Object_assign (JObj query)))" and xy: "(x, y) = z"
  have upd: "set (obj_set obj k v) \<subseteq> insert (k, v) (set obj)" for obj k v
    unfolding obj_set_def by (induction obj) auto
  have put: "set (own (js_put t k v)) \<subseteq> insert (k, v) (set (own t))" for t k v
    using upd [of "own t" k v] by (auto simp: js_put_def)
  have "set (own (foldl (\<lambda>target (key, val). js_put target key val) t es))
      \<subseteq> set (own t) \<union> set es" for t es
  proof (induction es arbitrary: t)
    case Nil
    show ?case by simp
  next
    case (Cons e es)
    obtain k v where e: "e = (k, v)" by (cases e)
    from Cons [of "js_put t k v"] put [of t k v] show ?case
      unfolding e by auto
  qed
  from this [of empty_object query] have "set (own (Object_assign (JObj query))) \<subseteq> set query"
    by (simp add: Object_assign_def empty_object_def)
  with z xy have "(x, y) \<in> set query" by auto
  then show "(y, JObj query) \<in> measure size"
    by (induction query) auto
qed

section \<open>Limit filtering: \<open>StripeAdapter.filterQuery\<close>\<close>

text \<open>The fields of \<open>params\<close> that \<open>filterQuery\<close> reads.\<close>

record params =
  query :: jsval
  paginate :: jsval

text \<open>\<open>query.$limit || query.limit\<close>, read on the copy of the query.\<close>

definition query_limit :: "jsobject \<Rightarrow> jsval" where
  "query_limit q = jsOr (js_get q ''$limit'') (js_get q ''limit'')"

text \<open>
  \<open>filterQuery (params)\<close>, with \<open>this.options.paginate\<close> as first argument. The copy of
  the query goes to \<open>cleanQuery\<close>, which reads its own entries.
\<close>

definition filterQuery :: "policy option \<Rightarrow> params \<Rightarrow> jsval" where
  "filterQuery opts ps =
     (let q = Object_assign (query ps);
          limit = query_limit q
      in cleanQuery (JObj (own
           (if truthy limit
            then js_delete (js_put q ''limit'' (getLimit opts limit (paginate ps))) ''$limit''
            else q))))"

section \<open>Errors, completions and promises\<close>

text \<open>The error classes of the framework that the adapter constructs.\<close>

datatype errclass =
    PaymentError | BadRequest | Unavailable | NotAuthenticated | TooManyRequests
  | GeneralError | MethodNotAllowed | NotImplemented

text \<open>
  What can be thrown or be the reason of a rejection: a framework error with the two
  arguments of its constructor (message and data), a \<open>TypeError\<close> of the language, a plain
  \<open>Error\<close> with its message, or a value that is passed on as it was received.
\<close>

datatype jserror =
    FeathersError errclass jsval jsval
  | TypeError
  | Error string
  | Original jsval

text \<open>A call either throws synchronously or returns.\<close>

datatype 'a completion = Throws jserror | Returns 'a

text \<open>A settled promise. The SDK rejects with a value of its own (\<open>'e = jsval\<close>).\<close>

datatype ('v, 'e) promise = Resolved 'v | Rejected 'e

text \<open>
  \<open>p.catch(h)\<close>: a resolved promise is kept; on a rejection the handler runs, and what it
  throws becomes the reason of the rejection.
\<close>

definition catch_with ::
  "('v, 'e) promise \<Rightarrow> ('e \<Rightarrow> ('v, jserror) promise completion) \<Rightarrow> ('v, jserror) promise" where
  "catch_with p h =
     (case p of
        Resolved v \<Rightarrow> Resolved v
      | Rejected e \<Rightarrow> (case h e of Throws x \<Rightarrow> Rejected x | Returns p' \<Rightarrow> p'))"

text \<open>
  \<open>v.key\<close> for a key that is neither an index nor defined by a prototype (\<open>type\<close>, \<open>pay\<close>,
  \<open>secretKey\<close>): a \<open>TypeError\<close> on \<open>undefined\<close> and \<open>null\<close>, the entry of an object, and
  \<open>undefined\<close> on everything else.
\<close>

fun get_member :: "jsval \<Rightarrow> string \<Rightarrow> jsval completion" where
  "get_member JUndefined key = Throws TypeError"
| "get_member JNull key = Throws TypeError"
| "get_member (JObj obj) key = Returns (get_prop obj key)"
| "get_member _ key = Returns JUndefined"

section \<open>Error remapping: \<open>StripeAdapter.handleError\<close>\<close>

text \<open>The \<open>switch\<close> on \<open>error.type\<close>, case by case with strict equality.\<close>

definition switch_type :: "jsval \<Rightarrow> jsval \<Rightarrow> jserror" where
  "switch_type ty error =
     (if ty = JStr ''StripeCardError'' then FeathersError PaymentError error error
      else if ty = JStr ''StripeInvalidRequestError'' \<or> ty = JStr ''StripeInvalidRequest''
        then FeathersError BadRequest error error
      else if ty = JStr ''StripeAPIError'' then FeathersError Unavailable error error
      else if ty = JStr ''StripeConnectionError'' then FeathersError Unavailable error error
      else if ty = JStr ''StripeAuthenticationError''
        then FeathersError NotAuthenticated error error
      else if ty = JStr ''StripeRateLimitError'' then FeathersError TooManyRequests error error
      else FeathersError GeneralError (JStr ''Unknown Payment Gateway Error'') error)"

text \<open>The seven discriminators that the \<open>switch\<close> names.\<close>

definition known_types :: "string list" where
  "known_types =
     [''StripeCardError'', ''StripeInvalidRequestError'', ''StripeInvalidRequest'',
      ''StripeAPIError'', ''StripeConnectionError'', ''StripeAuthenticationError'',
      ''StripeRateLimitError'']"

definition handleError :: "jsval \<Rightarrow> (jsval, jserror) promise completion" where
  "handleError error =
     (case get_member error ''type'' of
        Throws x \<Rightarrow> Throws x
      | Returns ty \<Rightarrow>
          Returns (Rejected (if truthy ty then switch_type ty error else Original error)))"

text \<open>The category of a rejection, when it is a framework error.\<close>

fun category :: "(jsval, jserror) promise completion \<Rightarrow> errclass option" where
  "category (Returns (Rejected (FeathersError c m d))) = Some c"
| "category _ = None"

section \<open>Unpaginated calls: \<open>StripeAdapter.handlePaginate\<close>\<close>

text \<open>
  \<open>autoPagingEach(callback)\<close> of a list call: it hands the items to the callback in order
  and then resolves, or rejects with the SDK's error after the items it could fetch.
\<close>

datatype paging = Paging "jsval list" "jsval option"

text \<open>
  The object an SDK list call returns: a promise, settled as \<open>settles\<close> says, that may offer
  \<open>autoPagingEach\<close>.
\<close>

record stripeMethod =
  settles :: "(jsval, jsval) promise"
  autoPagingEach :: "paging option"

text \<open>
  \<open>handlePaginate ({ paginate }, stripeMethod)\<close>. The function is \<open>async\<close>: what it returns
  settles its promise (a returned promise is adopted) and what it throws rejects it.
\<close>

definition handlePaginate :: "jsval \<Rightarrow> stripeMethod \<Rightarrow> (jsval, jserror) promise" where
  "handlePaginate pag sm =
     (if truthy pag
      then (case settles sm of Resolved v \<Rightarrow> Resolved v | Rejected e \<Rightarrow> Rejected (Original e))
      else case autoPagingEach sm of
        Some (Paging items failure) \<Rightarrow>
          (let results = foldl (\<lambda>results result. results @ [result]) [] items
           in case failure of
                None \<Rightarrow> Resolved (JArr results)
              | Some e \<Rightarrow> Rejected (Original e))
      | None \<Rightarrow>
          Rejected (FeathersError MethodNotAllowed
            (JStr ''Cannot use paginate: false on this method'') JUndefined))"

section \<open>The SDK and the resource services\<close>

text \<open>
  A request to the SDK: \<open>this.stripe.<resource>.<method>(args)\<close>. The SDK itself is a
  parameter of the model: the function that gives the promise each request returns.
  The legacy services pass rejections to \<open>errorHandler\<close> of \<open>../error-handler\<close>, which is
  a parameter as well.
\<close>

datatype sdk_call = Call string string "jsval list"

type_synonym sdk = "sdk_call \<Rightarrow> (jsval, jsval) promise"

type_synonym handler = "jsval \<Rightarrow> (jsval, jserror) promise completion"

type_synonym outcome = "(jsval, jserror) promise completion"

text \<open>
  What running a method does: the requests it issues, in order; the promises it creates
  and drops (neither awaited nor returned); and what it returns or throws.
\<close>

record 'a run =
  calls :: "sdk_call list"
  dropped :: "(jsval, jserror) promise list"
  returned :: 'a

text \<open>\<open>return this.stripe.<resource>.<method>(args).catch(errorHandler)\<close>\<close>

definition request :: "sdk \<Rightarrow> handler \<Rightarrow> sdk_call \<Rightarrow> outcome run" where
  "request sdk errorHandler c =
     \<lparr>calls = [c], dropped = [], returned = Returns (catch_with (sdk c) errorHandler)\<rparr>"

text \<open>The \<open>i\<close>-th of the arguments a rest parameter collected: \<open>undefined\<close> beyond them.\<close>

definition arg :: "jsval list \<Rightarrow> nat \<Rightarrow> jsval" where
  "arg args i = (if i < length args then args ! i else JUndefined)"

subsection \<open>Transfers\<close>

definition transfers_update :: "sdk \<Rightarrow> handler \<Rightarrow> jsval \<Rightarrow> jsval \<Rightarrow> outcome run" where
  "transfers_update sdk errorHandler id' data =
     request sdk errorHandler (Call ''transfers'' ''update'' [id', data])"

definition transfers_patch :: "sdk \<Rightarrow> handler \<Rightarrow> jsval list \<Rightarrow> outcome run" where
  "transfers_patch sdk errorHandler args =
     transfers_update sdk errorHandler (arg args 0) (arg args 1)"

definition transfers_remove :: "sdk \<Rightarrow> handler \<Rightarrow> jsval \<Rightarrow> outcome run" where
  "transfers_remove sdk errorHandler id' =
     request sdk errorHandler (Call ''transfers'' ''createReversal'' [id'])"

subsection \<open>Prices\<close>

definition prices__update :: "sdk \<Rightarrow> handler \<Rightarrow> jsval \<Rightarrow> jsval \<Rightarrow> outcome run" where
  "prices__update sdk errorHandler id' data =
     request sdk errorHandler (Call ''prices'' ''update'' [id', data])"

definition prices_update :: "sdk \<Rightarrow> handler \<Rightarrow> jsval \<Rightarrow> jsval \<Rightarrow> outcome run" where
  "prices_update sdk errorHandler id' data = prices__update sdk errorHandler id' data"

definition prices__patch :: "sdk \<Rightarrow> handler \<Rightarrow> jsval list \<Rightarrow> outcome run" where
  "prices__patch sdk errorHandler args =
     prices__update sdk errorHandler (arg args 0) (arg args 1)"

definition prices_patch :: "sdk \<Rightarrow> handler \<Rightarrow> jsval list \<Rightarrow> outcome run" where
  "prices_patch sdk errorHandler args = prices__patch sdk errorHandler args"

subsection \<open>Orders\<close>

definition orders_update :: "sdk \<Rightarrow> handler \<Rightarrow> jsval \<Rightarrow> jsval \<Rightarrow> outcome run" where
  "orders_update sdk errorHandler id' data =
     request sdk errorHandler (Call ''orders'' ''update'' [id', data])"

text \<open>
  \<open>patch (id, data)\<close>: with a truthy \<open>data.pay\<close> the pay request is issued on a copy of
  the payload, \<open>Object.assign({}, data)\<close>, from which \<open>pay\<close> is deleted, and its promise is
  dropped; then \<open>update\<close> runs on the payload as it came.
\<close>

definition orders_patch :: "sdk \<Rightarrow> handler \<Rightarrow> jsval \<Rightarrow> jsval \<Rightarrow> outcome run" where
  "orders_patch sdk errorHandler id' data =
     (case get_member data ''pay'' of
        Throws x \<Rightarrow> \<lparr>calls = [], dropped = [], returned = Throws x\<rparr>
      | Returns pay \<Rightarrow>
          if truthy pay
          then
            (let payload = js_delete (Object_assign data) ''pay'';
                 paid = request sdk errorHandler
                   (Call ''orders'' ''pay'' [id', JObj (own payload)]);
                 updated = orders_update sdk errorHandler id' data
             in \<lparr>calls = calls paid @ calls updated,
                 dropped = (case returned paid of Returns p \<Rightarrow> [p] | Throws x \<Rightarrow> [])
                   @ dropped updated,
                 returned = returned updated\<rparr>)
          else orders_update sdk errorHandler id' data)"

section \<open>The base adapter's verbs: \<open>$update\<close> and \<open>$patch\<close>\<close>

text \<open>
  The internal methods a concrete service may define. Each gives the requests it issues
  and the promise of the SDK it returns.
\<close>

type_synonym internal = "jsval list \<Rightarrow> sdk_call list \<times> (jsval, jsval) promise"

record adapter =
  internal_patch :: "internal option"
  internal_update :: "internal option"

text \<open>\<open>return this._m(...args).catch(this.handleError)\<close>\<close>

definition guarded :: "internal \<Rightarrow> jsval list \<Rightarrow> outcome run" where
  "guarded m args =
     \<lparr>calls = fst (m args), dropped = [],
      returned = Returns (catch_with (snd (m args)) handleError)\<rparr>"

definition not_implemented :: "string \<Rightarrow> outcome run" where
  "not_implemented msg =
     \<lparr>calls = [], dropped = [],
      returned = Throws (FeathersError NotImplemented (JStr msg) JUndefined)\<rparr>"

definition dollar_update :: "adapter \<Rightarrow> jsval list \<Rightarrow> outcome run" where
  "dollar_update a args =
     (case internal_update a of
        None \<Rightarrow> not_implemented ''Update method not implemented''
      | Some m \<Rightarrow> guarded m args)"

definition dollar_patch :: "adapter \<Rightarrow> jsval list \<Rightarrow> outcome run" where
  "dollar_patch a args =
     (case internal_patch a of
        Some m \<Rightarrow> guarded m args
      | None \<Rightarrow>
          (case internal_update a of
             Some m \<Rightarrow> guarded m args
           | None \<Rightarrow> not_implemented ''Patch method not implemented''))"

section \<open>Construction\<close>

text \<open>
  The client handle of a service: made by \<open>Stripe(secretKey)\<close>, or the one passed in.
  A constructed service is its handle and the other properties the constructor sets on
  the instance: \<open>options\<close> for the adapter, \<open>paginate\<close> for the transfers service.
\<close>

datatype client = Stripe jsval | Provided jsval

record service =
  stripe :: client
  props :: entries

text \<open>
  \<open>{ paginate: { default: 10, max: 100 }, ...options }\<close>: the entries of \<open>options\<close> are
  defined over the default in their order.
\<close>

definition default_opts :: entries where
  "default_opts =
     [(''paginate'', JObj [(''default'', JNum (Fin 10)), (''max'', JNum (Fin 100))])]"

definition spread_over :: "entries \<Rightarrow> jsval \<Rightarrow> entries" where
  "spread_over init v = foldl (\<lambda>obj (key, val). obj_set obj key val) init (own_entries v)"

text \<open>
  The constructor of \<open>StripeAdapter\<close>. \<open>super(opts)\<close> keeps the options as \<open>this.options\<close>
  and issues nothing.
\<close>

definition StripeAdapter_new :: "jsval \<Rightarrow> service completion run" where
  "StripeAdapter_new opts_arg =
     (let opts = spread_over default_opts opts_arg
      in \<lparr>calls = [], dropped = [],
          returned =
            (if \<not> truthy (get_prop opts ''secretKey'') \<and> \<not> truthy (get_prop opts ''stripe'')
             then Throws
               (Error ''Stripe service option `secretKey` or `stripe` needs to be provided'')
             else Returns
               \<lparr>stripe =
                  (if truthy (get_prop opts ''stripe'') then Provided (get_prop opts ''stripe'')
                   else Stripe (get_prop opts ''secretKey'')),
                props = [(''options'', JObj opts)]\<rparr>)\<rparr>)"

text \<open>
  The constructor of the transfers service, \<open>constructor (options = {})\<close>: its \<open>paginate\<close>
  is set to an empty object.
\<close>

definition Service_new :: "jsval \<Rightarrow> service completion run" where
  "Service_new opts_arg =
     (let opts = (if opts_arg = JUndefined then JObj [] else opts_arg)
      in \<lparr>calls = [], dropped = [],
          returned =
            (case get_member opts ''secretKey'' of
               Throws x \<Rightarrow> Throws x
             | Returns key \<Rightarrow>
                 if \<not> truthy key then Throws (Error ''Stripe `secretKey` needs to be provided'')
                 else Returns \<lparr>stripe = Stripe key, props = [(''paginate'', JObj [])]\<rparr>)\<rparr>)"

text \<open>What a configuration provides under a key: a truthy entry of an object.\<close>

fun provides :: "jsval \<Rightarrow> string \<Rightarrow> bool" where
  "provides (JObj cfg) key = truthy (get_prop cfg key)"
| "provides _ key = False"

section \<open>Two SDKs for the examples\<close>

text \<open>An SDK that declines every pay request and answers every other request.\<close>

definition refusing_pay :: sdk where
  "refusing_pay c =
     (case c of Call r m args \<Rightarrow>
        if m = ''pay'' then Rejected (JObj [(''type'', JStr ''StripeCardError'')])
        else Resolved (JObj [(''id'', JStr ''or_1'')]))"

text \<open>An SDK that answers every request.\<close>

definition accepting_pay :: sdk where
  "accepting_pay c = Resolved (JObj [(''id'', JStr ''or_1'')])"

section \<open>Entries that were written to or deleted from\<close>

lemma map_of_obj_set: "map_of (obj_set obj k v) = (map_of obj)(k \<mapsto> v)"
  by (simp add: obj_set_def update_conv')

lemma map_of_obj_delete: "map_of (obj_delete obj k) = (map_of obj)(k := None)"
  by (simp add: obj_delete_def delete_conv')

lemma obj_set_absent: "k \<notin> fst ` set obj \<Longrightarrow> obj_set obj k v = obj @ [(k, v)]"
  unfolding obj_set_def by (induction obj) auto

lemma obj_delete_absent: "k \<notin> fst ` set obj \<Longrightarrow> obj_delete obj k = obj"
  by (simp add: obj_delete_def)

lemma in_keys: "(k, v) \<in> set es \<Longrightarrow> k \<in> fst ` set es"
  by force

text \<open>Writing and deleting keep the keys of an object distinct.\<close>

lemma distinct_obj_set: "distinct (map fst obj) \<Longrightarrow> distinct (map fst (obj_set obj k v))"
  by (simp add: obj_set_def distinct_update)

lemma distinct_obj_delete: "distinct (map fst obj) \<Longrightarrow> distinct (map fst (obj_delete obj k))"
  by (simp add: obj_delete_def distinct_delete)

lemma keys_obj_set: "fst ` set (obj_set obj k v) = insert k (fst ` set obj)"
  by (simp add: obj_set_def dom_update)

lemma keys_obj_delete: "fst ` set (obj_delete obj k) = fst ` set obj - {k}"
  by (auto simp: obj_delete_def AList.delete_eq)

lemma set_obj_delete: "set (obj_delete obj k) \<subseteq> set obj"
  by (auto simp: obj_delete_def AList.delete_eq)

lemma obj_delete_append: "obj_delete (xs @ ys) k = obj_delete xs k @ obj_delete ys k"
  by (simp add: obj_delete_def AList.delete_eq)

section \<open>The copy that \<open>Object.assign\<close> makes\<close>

text \<open>
  The own entries of the copy of an object are its entries without \<open>__proto__\<close>, in their
  order; without that entry, the copy keeps the prototype it started with.
\<close>

lemma assign_fold:
  assumes "distinct (map fst es)" and "fst ` set (own t) \<inter> fst ` set es = {}"
    and "''__proto__'' \<notin> fst ` set (own t)"
    and "reaches_accessor (proto t) \<or> ''__proto__'' \<notin> fst ` set es"
  shows "own (foldl (\<lambda>target (key, val). js_put target key val) t es)
           = own t @ obj_delete es ''__proto__''"
  using assms
proof (induction es arbitrary: t)
  case Nil
  show ?case by (simp add: obj_delete_def)
next
  case (Cons e es)
  obtain k v where e: "e = (k, v)" by (cases e)
  from Cons.prems(1) have d: "distinct (map fst es)" and kn: "k \<notin> fst ` set es"
    unfolding e by simp_all
  from Cons.prems(2) have ko: "k \<notin> fst ` set (own t)"
    and disj: "fst ` set (own t) \<inter> fst ` set es = {}"
    unfolding e by auto
  show ?case
  proof (cases "k = ''__proto__''")
    case True
    from Cons.prems(3) have n: "map_of (own t) ''__proto__'' = None"
      by (simp add: map_of_eq_None_iff)
    from Cons.prems(4) True have r: "reaches_accessor (proto t)"
      unfolding e by simp
    have o: "own (js_put t k v) = own t"
      using True n r by (simp add: js_put_def)
    have "own (foldl (\<lambda>target (key, val). js_put target key val) (js_put t k v) es)
        = own (js_put t k v) @ obj_delete es ''__proto__''"
    proof (rule Cons.IH [OF d])
      show "fst ` set (own (js_put t k v)) \<inter> fst ` set es = {}" using disj o by simp
      show "''__proto__'' \<notin> fst ` set (own (js_put t k v))" using Cons.prems(3) o by simp
      show "reaches_accessor (proto (js_put t k v)) \<or> ''__proto__'' \<notin> fst ` set es"
        using kn True by simp
    qed
    with o True show ?thesis unfolding e by (simp add: obj_delete_def)
  next
    case False
    have o: "own (js_put t k v) = own t @ [(k, v)]"
      using False by (simp add: js_put_def obj_set_absent [OF ko])
    have p: "proto (js_put t k v) = proto t"
      using False by (simp add: js_put_def)
    have "own (foldl (\<lambda>target (key, val). js_put target key val) (js_put t k v) es)
        = own (js_put t k v) @ obj_delete es ''__proto__''"
    proof (rule Cons.IH [OF d])
      show "fst ` set (own (js_put t k v)) \<inter> fst ` set es = {}"
        using disj kn unfolding o by auto
      show "''__proto__'' \<notin> fst ` set (own (js_put t k v))"
        using Cons.prems(3) False unfolding o by auto
      show "reaches_accessor (proto (js_put t k v)) \<or> ''__proto__'' \<notin> fst ` set es"
        using Cons.prems(4) unfolding p e by auto
    qed
    with o False show ?thesis unfolding e by (simp add: obj_delete_def)
  qed
qed

lemma assign_own:
  "distinct (map fst es) \<Longrightarrow> own (Object_assign (JObj es)) = obj_delete es ''__proto__''"
  using assign_fold [of es empty_object] by (simp add: Object_assign_def empty_object_def)

lemma assign_proto:
  "''__proto__'' \<notin> fst ` set es \<Longrightarrow>
   proto (foldl (\<lambda>target (key, val). js_put target key val) t es) = proto t"
  by (induction es arbitrary: t) (auto simp: js_put_def)

lemma assign_plain:
  assumes "distinct (map fst es)" and "''__proto__'' \<notin> fst ` set es"
  shows "Object_assign (JObj es) = \<lparr>proto = None, own = es\<rparr>"
proof -
  have "own (Object_assign (JObj es)) = es"
    using assms by (simp add: assign_own obj_delete_absent)
  moreover have "proto (Object_assign (JObj es)) = None"
    using assign_proto [OF assms(2), of empty_object]
    by (simp add: Object_assign_def empty_object_def)
  ultimately show ?thesis by (cases "Object_assign (JObj es)") simp
qed

text \<open>The definitions a concrete query is evaluated with.\<close>

lemmas eval_defs = startsWith_dollar_def replace_dollar_def cleanKey_def clean_entry_def
  js_put_def js_delete_def obj_set_def obj_delete_def Object_assign_def empty_object_def

lemmas limit_defs = filterQuery_def query_limit_def js_get_def get_prop_def jsOr_def getLimit_def
  policy_field_def base_limit_def lower_limit_def upper_limit_def

section \<open>Properties of pagination clamping\<close>

text \<open>
  Claim C1, as amended. For a policy with default \<open>D\<close> and maximum \<open>M\<close>, \<open>getLimit\<close> returns
  the requested limit \<open>L\<close> unchanged when \<open>paramsPaginate\<close> is \<open>false\<close>, and also when both
  \<open>D\<close> and \<open>M\<close> are falsy (zero or NaN): the guard \<open>paginate.default || paginate.max\<close> then
  skips the clamping. Otherwise it returns the minimum of "L or D" and \<open>M\<close>, where "L or D"
  is \<open>L\<close> when \<open>L\<close> is a number other than NaN and \<open>D\<close> otherwise; a NaN default counts as 0
  (\<open>paginate.default || 0\<close>).
\<close>

theorem getLimit_clamps:
  "getLimit (Some \<lparr>default_limit = Some D, max_limit = Some M\<rparr>) L P =
     (if P = JBool False then L
      else if truthy_num D \<or> truthy_num M
        then JNum (Math_min (requested_or_default L (if D = NaN then Fin 0 else D)) M)
      else L)"
  by (cases D) (auto simp: getLimit_def jsOr_def policy_field_def base_limit_def upper_limit_def
      lower_limit_def requested_or_default_def split: jsval.splits)

text \<open>
  The theorem of claim C1 with the policy \<open>{default: 10, max: 100}\<close>: a requested limit
  of 500 is clamped to 100, a limit that is no number gives the default, and with
  \<open>paginate: false\<close> the limit 500 passes through.
\<close>

theorem getLimit_clamps_witness:
  "getLimit (Some \<lparr>default_limit = Some (Fin 10), max_limit = Some (Fin 100)\<rparr>)
       (JNum (Fin 500)) JUndefined = JNum (Fin 100) \<and>
   getLimit (Some \<lparr>default_limit = Some (Fin 10), max_limit = Some (Fin 100)\<rparr>)
       (JStr ''many'') JUndefined = JNum (Fin 10) \<and>
   getLimit (Some \<lparr>default_limit = Some (Fin 10), max_limit = Some (Fin 100)\<rparr>)
       (JNum (Fin 500)) (JBool False) = JNum (Fin 500)"
  using getLimit_clamps [of "Fin 10" "Fin 100" "JNum (Fin 500)" JUndefined]
    getLimit_clamps [of "Fin 10" "Fin 100" "JStr ''many''" JUndefined]
    getLimit_clamps [of "Fin 10" "Fin 100" "JNum (Fin 500)" "JBool False"]
  by (simp add: requested_or_default_def)

text \<open>
  Claim C1 as stated fails for the policy \<open>{default: 0, max: 0}\<close>: a requested limit of 5
  is returned as it is, where the minimum with the maximum would be 0.
\<close>

theorem getLimit_min_counterexample:
  "getLimit (Some \<lparr>default_limit = Some (Fin 0), max_limit = Some (Fin 0)\<rparr>)
       (JNum (Fin 5)) JUndefined
     \<noteq> JNum (Math_min (requested_or_default (JNum (Fin 5)) (Fin 0)) (Fin 0))"
  by (simp add: getLimit_def jsOr_def policy_field_def requested_or_default_def)

section \<open>Properties of error remapping\<close>

text \<open>
  Claim C2, as amended. For every error object: each of the seven known discriminators
  is mapped to the category of the table; any other truthy discriminator gives the general
  error "Unknown Payment Gateway Error" with the error as data; an error whose \<open>type\<close> is
  missing (or falsy) is passed on unchanged as the reason of the rejection; and in every
  case the result is a rejected promise that is returned, never an exception.
\<close>

theorem handleError_table:
  "(get_prop e ''type'' = JStr ''StripeCardError''
      \<longrightarrow> category (handleError (JObj e)) = Some PaymentError) \<and>
   (get_prop e ''type'' = JStr ''StripeInvalidRequestError''
      \<longrightarrow> category (handleError (JObj e)) = Some BadRequest) \<and>
   (get_prop e ''type'' = JStr ''StripeInvalidRequest''
      \<longrightarrow> category (handleError (JObj e)) = Some BadRequest) \<and>
   (get_prop e ''type'' = JStr ''StripeAPIError''
      \<longrightarrow> category (handleError (JObj e)) = Some Unavailable) \<and>
   (get_prop e ''type'' = JStr ''StripeConnectionError''
      \<longrightarrow> category (handleError (JObj e)) = Some Unavailable) \<and>
   (get_prop e ''type'' = JStr ''StripeAuthenticationError''
      \<longrightarrow> category (handleError (JObj e)) = Some NotAuthenticated) \<and>
   (get_prop e ''type'' = JStr ''StripeRateLimitError''
      \<longrightarrow> category (handleError (JObj e)) = Some TooManyRequests) \<and>
   (truthy (get_prop e ''type'') \<and> get_prop e ''type'' \<notin> JStr ` set known_types
      \<longrightarrow> handleError (JObj e) = Returns (Rejected
            (FeathersError GeneralError (JStr ''Unknown Payment Gateway Error'') (JObj e)))) \<and>
   (\<not> truthy (get_prop e ''type'')
      \<longrightarrow> handleError (JObj e) = Returns (Rejected (Original (JObj e)))) \<and>
   (\<exists>r. handleError (JObj e) = Returns (Rejected r))"
  by (simp add: handleError_def switch_type_def known_types_def)

text \<open>
  The theorem of claim C2 at nine error objects: one for each known discriminator, one
  with an unknown discriminator and one without.
\<close>

theorem handleError_table_witness:
  "category (handleError (JObj [(''type'', JStr ''StripeCardError'')])) = Some PaymentError \<and>
   category (handleError (JObj [(''type'', JStr ''StripeInvalidRequestError'')])) = Some BadRequest \<and>
   category (handleError (JObj [(''type'', JStr ''StripeInvalidRequest'')])) = Some BadRequest \<and>
   category (handleError (JObj [(''type'', JStr ''StripeAPIError'')])) = Some Unavailable \<and>
   category (handleError (JObj [(''type'', JStr ''StripeConnectionError'')])) = Some Unavailable \<and>
   category (handleError (JObj [(''type'', JStr ''StripeAuthenticationError'')]))
     = Some NotAuthenticated \<and>
   category (handleError (JObj [(''type'', JStr ''StripeRateLimitError'')]))
     = Some TooManyRequests \<and>
   handleError (JObj [(''type'', JStr ''StripeIdempotencyError'')])
     = Returns (Rejected (FeathersError GeneralError (JStr ''Unknown Payment Gateway Error'')
         (JObj [(''type'', JStr ''StripeIdempotencyError'')]))) \<and>
   handleError (JObj [(''message'', JStr ''socket hang up'')])
     = Returns (Rejected (Original (JObj [(''message'', JStr ''socket hang up'')])))"
  using handleError_table [of "[(''type'', JStr ''StripeCardError'')]"]
    handleError_table [of "[(''type'', JStr ''StripeInvalidRequestError'')]"]
    handleError_table [of "[(''type'', JStr ''StripeInvalidRequest'')]"]
    handleError_table [of "[(''type'', JStr ''StripeAPIError'')]"]
    handleError_table [of "[(''type'', JStr ''StripeConnectionError'')]"]
    handleError_table [of "[(''type'', JStr ''StripeAuthenticationError'')]"]
    handleError_table [of "[(''type'', JStr ''StripeRateLimitError'')]"]
    handleError_table [of "[(''type'', JStr ''StripeIdempotencyError'')]"]
    handleError_table [of "[(''message'', JStr ''socket hang up'')]"]
  by (simp add: get_prop_def known_types_def)

text \<open>
  Claim C2 as stated fails for an error without \<open>type\<close>: it is not turned into the general
  error, the rejection carries the error itself.
\<close>

theorem handleError_missing_type_counterexample:
  "category (handleError (JObj [(''message'', JStr ''socket hang up'')])) \<noteq> Some GeneralError \<and>
   handleError (JObj [(''message'', JStr ''socket hang up'')])
     = Returns (Rejected (Original (JObj [(''message'', JStr ''socket hang up'')])))"
  by (simp add: handleError_def get_prop_def)

section \<open>Properties of unpaginated calls\<close>

lemma push_all: "foldl (\<lambda>results result. results @ [result]) acc items = acc @ items"
  by (induction items arbitrary: acc) simp_all

text \<open>
  Claim C4. With pagination disabled for the call (a falsy \<open>paginate\<close>), \<open>handlePaginate\<close>
  is rejected with a method-not-allowed error when the SDK call offers no
  \<open>autoPagingEach\<close>; when it offers one, the items it hands over are collected in order
  and the promise resolves with all of them once the iteration has completed (and is
  rejected with the SDK's error when the iteration fails). With pagination enabled the
  promise of the SDK call is passed through.
\<close>

theorem handlePaginate_cases:
  "(\<not> truthy pag \<and> autoPagingEach sm = None
      \<longrightarrow> handlePaginate pag sm = Rejected (FeathersError MethodNotAllowed
            (JStr ''Cannot use paginate: false on this method'') JUndefined)) \<and>
   (\<not> truthy pag \<and> autoPagingEach sm = Some (Paging items None)
      \<longrightarrow> handlePaginate pag sm = Resolved (JArr items)) \<and>
   (\<not> truthy pag \<and> autoPagingEach sm = Some (Paging items (Some e))
      \<longrightarrow> handlePaginate pag sm = Rejected (Original e)) \<and>
   (truthy pag \<and> settles sm = Resolved v \<longrightarrow> handlePaginate pag sm = Resolved v) \<and>
   (truthy pag \<and> settles sm = Rejected e \<longrightarrow> handlePaginate pag sm = Rejected (Original e))"
  by (simp add: handlePaginate_def push_all)

text \<open>
  The theorem of claim C4 with \<open>paginate: false\<close> on a call without and with
  \<open>autoPagingEach\<close>, and with \<open>paginate: true\<close>.
\<close>

theorem handlePaginate_cases_witness:
  "handlePaginate (JBool False) \<lparr>settles = Resolved (JObj []), autoPagingEach = None\<rparr>
     = Rejected (FeathersError MethodNotAllowed
         (JStr ''Cannot use paginate: false on this method'') JUndefined) \<and>
   handlePaginate (JBool False)
       \<lparr>settles = Resolved (JObj []),
        autoPagingEach = Some (Paging [JStr ''tr_1'', JStr ''tr_2'', JStr ''tr_3''] None)\<rparr>
     = Resolved (JArr [JStr ''tr_1'', JStr ''tr_2'', JStr ''tr_3'']) \<and>
   handlePaginate (JBool False)
       \<lparr>settles = Resolved (JObj []),
        autoPagingEach = Some (Paging [JStr ''tr_1''] (Some (JStr ''timeout'')))\<rparr>
     = Rejected (Original (JStr ''timeout'')) \<and>
   handlePaginate (JBool True) \<lparr>settles = Resolved (JObj []), autoPagingEach = None\<rparr>
     = Resolved (JObj []) \<and>
   handlePaginate (JBool True) \<lparr>settles = Rejected (JStr ''timeout''), autoPagingEach = None\<rparr>
     = Rejected (Original (JStr ''timeout''))"
  using
    handlePaginate_cases [of "JBool False" "\<lparr>settles = Resolved (JObj []), autoPagingEach = None\<rparr>"]
    handlePaginate_cases [of "JBool False"
      "\<lparr>settles = Resolved (JObj []),
        autoPagingEach = Some (Paging [JStr ''tr_1'', JStr ''tr_2'', JStr ''tr_3''] None)\<rparr>"
      "[JStr ''tr_1'', JStr ''tr_2'', JStr ''tr_3'']"]
    handlePaginate_cases [of "JBool False"
      "\<lparr>settles = Resolved (JObj []),
        autoPagingEach = Some (Paging [JStr ''tr_1''] (Some (JStr ''timeout'')))\<rparr>"
      "[JStr ''tr_1'']" "JStr ''timeout''"]
    handlePaginate_cases [of "JBool True" "\<lparr>settles = Resolved (JObj []), autoPagingEach = None\<rparr>"
      _ _ "JObj []"]
    handlePaginate_cases [of "JBool True"
      "\<lparr>settles = Rejected (JStr ''timeout''), autoPagingEach = None\<rparr>" _ "JStr ''timeout''"]
  by simp

section \<open>Properties of query normalization\<close>

text \<open>A key with the prefix is the prefix before its stripped key, and is not \<open>__proto__\<close>.\<close>

lemma dollar_key: "startsWith_dollar key \<Longrightarrow> key = CHR ''$'' # replace_dollar key"
  by (cases key) (simp_all add: startsWith_dollar_def replace_dollar_def)

lemma dollar_not_proto: "startsWith_dollar key \<Longrightarrow> key \<noteq> ''__proto__''"
  by (auto simp: startsWith_dollar_def)

text \<open>
  Two different keys have the same stripped key only if one is the other with a \<open>$\<close>
  in front.
\<close>

lemma cleanKey_eq_dollar:
  assumes "startsWith_dollar key" "cleanKey key' = cleanKey key" "key' \<noteq> key"
  shows "key' = replace_dollar key"
proof (cases "startsWith_dollar key'")
  case True
  with assms(1,2) have "replace_dollar key' = replace_dollar key" by (simp add: cleanKey_def)
  with dollar_key [OF True] dollar_key [OF assms(1)] assms(3) show ?thesis by simp
next
  case False
  with assms(1,2) show ?thesis by (simp add: cleanKey_def)
qed

lemma cleanKey_eq_key:
  assumes "cleanKey key' = key" "key' \<noteq> key"
  shows "key' = CHR ''$'' # key"
proof (cases "startsWith_dollar key'")
  case True
  with assms(1) dollar_key [OF True] show ?thesis by (simp add: cleanKey_def)
next
  case False
  with assms show ?thesis by (simp add: cleanKey_def)
qed

text \<open>
  One step of the loop, seen from a key other than \<open>__proto__\<close>: the step stores under its
  stripped key and deletes its own key if that has the prefix.
\<close>

lemma map_of_clean_entry:
  "c \<noteq> ''__proto__'' \<Longrightarrow>
   map_of (own (clean_entry result key cleaned)) c =
     (if c = cleanKey key then Some cleaned
      else if startsWith_dollar key \<and> c = key then None
      else map_of (own result) c)"
  by (auto simp: clean_entry_def js_put_def js_delete_def map_of_obj_set map_of_obj_delete)

text \<open>
  The loop leaves alone a key that no entry has, as its key or as its stripped key; the
  last entry that is stored under a key decides its value; and a key with the prefix is
  gone once its entry is past, if no later entry is stored under it.
\<close>

lemma forEach_untouched:
  "c \<noteq> ''__proto__'' \<Longrightarrow> \<forall>(key, val) \<in> set es. cleanKey key \<noteq> c \<and> key \<noteq> c \<Longrightarrow>
   map_of (own (foldl (\<lambda>result (key, val). clean_entry result key (cleanQuery val)) result es)) c
     = map_of (own result) c"
  by (induction es arbitrary: result) (auto simp: map_of_clean_entry)

lemma forEach_last_write:
  assumes "cleanKey key \<noteq> ''__proto__''"
    and "\<forall>(key', val') \<in> set es2. cleanKey key' \<noteq> cleanKey key \<and> key' \<noteq> cleanKey key"
  shows "map_of (own (foldl (\<lambda>result (key, val). clean_entry result key (cleanQuery val)) result
            (es1 @ (key, val) # es2))) (cleanKey key) = Some (cleanQuery val)"
  using forEach_untouched [OF assms] by (simp add: map_of_clean_entry [OF assms(1)])

lemma forEach_deleted:
  assumes "startsWith_dollar key"
    and "\<forall>(key', val') \<in> set es2. cleanKey key' \<noteq> key \<and> key' \<noteq> key"
  shows "map_of (own (foldl (\<lambda>result (key, val). clean_entry result key (cleanQuery val)) result
            (es1 @ (key, val) # es2))) key = None"
proof -
  have n: "key \<noteq> ''__proto__''" by (rule dollar_not_proto [OF assms(1)])
  have "key \<noteq> cleanKey key"
    using dollar_key [OF assms(1)] assms(1) by (auto simp: cleanKey_def)
  with forEach_untouched [OF n assms(2)] assms(1) show ?thesis
    by (simp add: map_of_clean_entry [OF n])
qed

text \<open>The entries the loop runs over, around an entry that is not \<open>__proto__\<close>.\<close>

lemma snapshot_split:
  assumes "distinct (map fst (es1 @ (key, val) # es2))" and "key \<noteq> ''__proto__''"
  shows "own (Object_assign (JObj (es1 @ (key, val) # es2)))
           = obj_delete es1 ''__proto__'' @ (key, val) # obj_delete es2 ''__proto__''"
  using assms by (simp add: assign_own obj_delete_append) (simp add: obj_delete_def)

text \<open>
  Claim C3, as amended. Lists are normalized element by element, recursively. In a
  mapping, each key that begins with \<open>$\<close> appears in the output with the prefix stripped
  and with its value normalized recursively, provided the stripped key is not
  \<open>__proto__\<close> (what is assigned to that key goes to the setter of the prototype and is
  not stored) and is not itself the key of an entry enumerated after it (whose value
  would overwrite it). The key with the prefix is itself no key of the output, unless an
  entry enumerated after it has that key with one more \<open>$\<close> in front and is stored under
  it. Every value that is neither a list nor a mapping is returned unchanged.
\<close>

theorem cleanQuery_normalizes:
  "cleanQuery (JArr items) = JArr (map cleanQuery items) \<and>
   (distinct (map fst (es1 @ (key, val) # es2)) \<and> startsWith_dollar key \<and>
      replace_dollar key \<noteq> ''__proto__'' \<and> replace_dollar key \<notin> fst ` set es2
    \<longrightarrow> map_of (own_entries (cleanQuery (JObj (es1 @ (key, val) # es2)))) (replace_dollar key)
          = Some (cleanQuery val)) \<and>
   (distinct (map fst (es1 @ (key, val) # es2)) \<and> startsWith_dollar key \<and>
      CHR ''$'' # key \<notin> fst ` set es2
    \<longrightarrow> map_of (own_entries (cleanQuery (JObj (es1 @ (key, val) # es2)))) key = None) \<and>
   ((\<forall>items. q \<noteq> JArr items) \<and> (\<forall>obj. q \<noteq> JObj obj) \<longrightarrow> cleanQuery q = q)"
proof (intro conjI impI)
  show "cleanQuery (JArr items) = JArr (map cleanQuery items)" by simp
next
  assume h: "distinct (map fst (es1 @ (key, val) # es2)) \<and> startsWith_dollar key \<and>
      replace_dollar key \<noteq> ''__proto__'' \<and> replace_dollar key \<notin> fst ` set es2"
  then have d: "startsWith_dollar key" and c: "cleanKey key = replace_dollar key"
    and dist: "distinct (map fst (es1 @ (key, val) # es2))"
    and np: "cleanKey key \<noteq> ''__proto__''"
    by (simp_all add: cleanKey_def)
  from dist have later: "key \<notin> fst ` set es2" by simp
  have "\<forall>(key', val') \<in> set (obj_delete es2 ''__proto__'').
          cleanKey key' \<noteq> cleanKey key \<and> key' \<noteq> cleanKey key"
  proof (clarify, rule conjI)
    fix key' val' assume "(key', val') \<in> set (obj_delete es2 ''__proto__'')"
    with set_obj_delete have "(key', val') \<in> set es2" by blast
    then have k: "key' \<in> fst ` set es2" by (rule in_keys)
    with later have ne: "key' \<noteq> key" by blast
    from k h show "key' \<noteq> cleanKey key" unfolding c by blast
    show "cleanKey key' \<noteq> cleanKey key"
    proof
      assume "cleanKey key' = cleanKey key"
      from cleanKey_eq_dollar [OF d this ne] k h show False by blast
    qed
  qed
  from forEach_last_write [OF np this]
  show "map_of (own_entries (cleanQuery (JObj (es1 @ (key, val) # es2)))) (replace_dollar key)
          = Some (cleanQuery val)"
    by (simp add: c snapshot_split [OF dist dollar_not_proto [OF d]])
next
  assume h: "distinct (map fst (es1 @ (key, val) # es2)) \<and> startsWith_dollar key \<and>
      CHR ''$'' # key \<notin> fst ` set es2"
  then have d: "startsWith_dollar key"
    and dist: "distinct (map fst (es1 @ (key, val) # es2))"
    by simp_all
  from dist have later: "key \<notin> fst ` set es2" by simp
  have "\<forall>(key', val') \<in> set (obj_delete es2 ''__proto__''). cleanKey key' \<noteq> key \<and> key' \<noteq> key"
  proof (clarify, rule conjI)
    fix key' val' assume "(key', val') \<in> set (obj_delete es2 ''__proto__'')"
    with set_obj_delete have "(key', val') \<in> set es2" by blast
    then have k: "key' \<in> fst ` set es2" by (rule in_keys)
    with later show ne: "key' \<noteq> key" by blast
    show "cleanKey key' \<noteq> key"
    proof
      assume "cleanKey key' = key"
      from cleanKey_eq_key [OF this ne] k h show False by blast
    qed
  qed
  from forEach_deleted [OF d this]
  show "map_of (own_entries (cleanQuery (JObj (es1 @ (key, val) # es2)))) key = None"
    by (simp add: snapshot_split [OF dist dollar_not_proto [OF d]])
next
  assume "(\<forall>items. q \<noteq> JArr items) \<and> (\<forall>obj. q \<noteq> JObj obj)"
  then show "cleanQuery q = q" by (cases q) simp_all
qed

text \<open>
  The theorem of claim C3 on a list with a nested mapping, on a mapping where \<open>limit\<close>
  comes before \<open>$limit\<close>, and on a string.
\<close>

theorem cleanQuery_normalizes_witness:
  "cleanQuery (JArr [JObj [(''$gt'', JNum (Fin 2))], JStr ''x''])
     = JArr [JObj [(''gt'', JNum (Fin 2))], JStr ''x''] \<and>
   map_of (own_entries (cleanQuery (JObj
       [(''limit'', JNum (Fin 1)), (''$limit'', JObj [(''$gt'', JNum (Fin 2))]),
        (''status'', JStr ''paid'')]))) ''limit''
     = Some (JObj [(''gt'', JNum (Fin 2))]) \<and>
   map_of (own_entries (cleanQuery (JObj
       [(''limit'', JNum (Fin 1)), (''$limit'', JObj [(''$gt'', JNum (Fin 2))]),
        (''status'', JStr ''paid'')]))) ''$limit''
     = None \<and>
   cleanQuery (JStr ''$paid'') = JStr ''$paid''"
  using cleanQuery_normalizes [of "[JObj [(''$gt'', JNum (Fin 2))], JStr ''x'']"
      "[(''limit'', JNum (Fin 1))]" "''$limit''" "JObj [(''$gt'', JNum (Fin 2))]"
      "[(''status'', JStr ''paid'')]" "JStr ''$paid''"]
  by (simp add: eval_defs)

text \<open>
  Claim C3 as stated fails when the stripped key is a later key of the mapping: in
  \<open>{$limit: 2, limit: 1}\<close> the value of \<open>$limit\<close> is overwritten and the output is
  \<open>{limit: 1}\<close>. It also fails on \<open>{$__proto__: 5}\<close>, where the output is \<open>{}\<close>.
\<close>

theorem cleanQuery_collision_counterexample:
  "cleanQuery (JObj [(''$limit'', JNum (Fin 2)), (''limit'', JNum (Fin 1))])
     = JObj [(''limit'', JNum (Fin 1))] \<and>
   map_of (own_entries (cleanQuery (JObj [(''$limit'', JNum (Fin 2)), (''limit'', JNum (Fin 1))])))
       ''limit''
     \<noteq> Some (cleanQuery (JNum (Fin 2))) \<and>
   cleanQuery (JObj [(''$__proto__'', JNum (Fin 5))]) = JObj [] \<and>
   map_of (own_entries (cleanQuery (JObj [(''$__proto__'', JNum (Fin 5))]))) ''__proto__''
     \<noteq> Some (cleanQuery (JNum (Fin 5)))"
  by (simp add: eval_defs)

section \<open>Properties of limit filtering\<close>

text \<open>
  An entry of an object whose keys are distinct is stored under its stripped key when
  that is not \<open>__proto__\<close> and no other entry has it, as its key or as its stripped key.
\<close>

lemma forEach_only_write:
  assumes "distinct (map fst es)" "(key, val) \<in> set es" "cleanKey key \<noteq> ''__proto__''"
    and "\<forall>(key', val') \<in> set es.
           key' \<noteq> key \<longrightarrow> cleanKey key' \<noteq> cleanKey key \<and> key' \<noteq> cleanKey key"
  shows "map_of (own (foldl (\<lambda>result (key, val). clean_entry result key (cleanQuery val))
           result es)) (cleanKey key) = Some (cleanQuery val)"
proof -
  from split_list [OF assms(2)] obtain es1 es2 where es: "es = es1 @ (key, val) # es2"
    by blast
  from assms(1) have later: "key \<notin> fst ` set es2"
    unfolding es by simp
  have "\<forall>(key', val') \<in> set es2. cleanKey key' \<noteq> cleanKey key \<and> key' \<noteq> cleanKey key"
  proof (clarify)
    fix key' val' assume m: "(key', val') \<in> set es2"
    from in_keys [OF m] later have ne: "key' \<noteq> key" by blast
    from m have "(key', val') \<in> set es" unfolding es by simp
    with assms(4) ne show "cleanKey key' \<noteq> cleanKey key \<and> key' \<noteq> cleanKey key" by blast
  qed
  from forEach_last_write [OF assms(3) this, of result es1 val] show ?thesis
    unfolding es .
qed

text \<open>The loop on an object without \<open>__proto__\<close> entry starts from the object itself.\<close>

lemma clean_plain:
  assumes "distinct (map fst es)" and "''__proto__'' \<notin> fst ` set es"
  shows "own_entries (cleanQuery (JObj es))
    = own (foldl (\<lambda>result (key, val). clean_entry result key (cleanQuery val))
        \<lparr>proto = None, own = es\<rparr> es)"
  by (simp add: assign_plain [OF assms])

text \<open>Only \<open>limit\<close> and \<open>$limit\<close> are forwarded as \<open>limit\<close>.\<close>

lemma cleanKey_limit: "cleanKey key = ''limit'' \<longleftrightarrow> key = ''limit'' \<or> key = ''$limit''"
  by (cases key) (auto simp: cleanKey_def startsWith_dollar_def replace_dollar_def)

lemma limit_cleanKey: "''limit'' = cleanKey key \<longleftrightarrow> key = ''limit'' \<or> key = ''$limit''"
  using cleanKey_limit [of key] by metis

lemma cleanKey_of_limit: "cleanKey ''limit'' = ''limit''"
  by (simp add: cleanKey_limit)

lemma cleanKey_of_proto: "cleanKey ''__proto__'' = ''__proto__''"
  by (simp add: cleanKey_def startsWith_dollar_def)

text \<open>
  The query that \<open>filterQuery\<close> normalizes when the limit is truthy: \<open>limit\<close> is set and
  \<open>$limit\<close> deleted.
\<close>

lemma limited_limit:
  assumes "distinct (map fst q)" and "''__proto__'' \<notin> fst ` set q"
  shows "map_of (own_entries (cleanQuery (JObj (obj_delete (obj_set q ''limit'' v) ''$limit''))))
           ''limit'' = Some (cleanQuery v)"
proof -
  let ?q' = "obj_delete (obj_set q ''limit'' v) ''$limit''"
  have d: "distinct (map fst ?q')"
    using assms(1) by (simp add: distinct_obj_set distinct_obj_delete)
  have p: "''__proto__'' \<notin> fst ` set ?q'"
    using assms(2) by (simp add: keys_obj_delete keys_obj_set)
  have "map_of ?q' ''limit'' = Some v"
    by (simp add: map_of_obj_set map_of_obj_delete)
  then have m: "(''limit'', v) \<in> set ?q'" by (rule map_of_SomeD)
  have "\<forall>(key', val') \<in> set ?q'.
          key' \<noteq> ''limit'' \<longrightarrow> cleanKey key' \<noteq> cleanKey ''limit'' \<and> key' \<noteq> cleanKey ''limit''"
  proof (clarify)
    fix key' val' assume a: "(key', val') \<in> set ?q'" "key' \<noteq> ''limit''"
    from in_keys [OF a(1)] have "key' \<noteq> ''$limit''" by (simp add: keys_obj_delete)
    with a(2) show "cleanKey key' \<noteq> cleanKey ''limit'' \<and> key' \<noteq> cleanKey ''limit''"
      by (simp add: cleanKey_limit cleanKey_of_limit)
  qed
  from forEach_only_write [OF d m _ this, of "\<lparr>proto = None, own = ?q'\<rparr>"] show ?thesis
    unfolding clean_plain [OF d p] by (simp add: cleanKey_of_limit)
qed

lemma limited_other:
  assumes "distinct (map fst q)" and "''__proto__'' \<notin> fst ` set q"
    and "(key, val) \<in> set q" "key \<noteq> ''limit''" "key \<noteq> ''$limit''"
    and "cleanKey key \<noteq> ''__proto__''"
    and "\<forall>(key', val') \<in> set q.
           key' \<noteq> key \<longrightarrow> cleanKey key' \<noteq> cleanKey key \<and> key' \<noteq> cleanKey key"
  shows "map_of (own_entries (cleanQuery (JObj (obj_delete (obj_set q ''limit'' v) ''$limit''))))
           (cleanKey key) = Some (cleanQuery val)"
proof -
  let ?q' = "obj_delete (obj_set q ''limit'' v) ''$limit''"
  have d: "distinct (map fst ?q')"
    using assms(1) by (simp add: distinct_obj_set distinct_obj_delete)
  have p: "''__proto__'' \<notin> fst ` set ?q'"
    using assms(2) by (simp add: keys_obj_delete keys_obj_set)
  from assms(1,3) have "map_of q key = Some val" by simp
  with assms(4,5) have "map_of ?q' key = Some val"
    by (simp add: map_of_obj_set map_of_obj_delete)
  then have m: "(key, val) \<in> set ?q'" by (rule map_of_SomeD)
  have nl: "key \<noteq> ''limit'' \<and> key \<noteq> ''$limit''" using assms(4,5) by simp
  have "\<forall>(key', val') \<in> set ?q'.
          key' \<noteq> key \<longrightarrow> cleanKey key' \<noteq> cleanKey key \<and> key' \<noteq> cleanKey key"
  proof (clarify)
    fix key' val' assume a: "(key', val') \<in> set ?q'" "key' \<noteq> key"
    from in_keys [OF a(1)] have "key' = ''limit'' \<or> key' \<in> fst ` set q"
      by (auto simp: keys_obj_delete keys_obj_set)
    then show "cleanKey key' \<noteq> cleanKey key \<and> key' \<noteq> cleanKey key"
    proof
      assume "key' = ''limit''"
      with nl show ?thesis by (simp add: cleanKey_of_limit limit_cleanKey)
    next
      assume "key' \<in> fst ` set q"
      then obtain v' where "(key', v') \<in> set q" by auto
      with assms(7) a(2) show ?thesis by blast
    qed
  qed
  from forEach_only_write [OF d m assms(6) this, of "\<lparr>proto = None, own = ?q'\<rparr>"]
  show ?thesis unfolding clean_plain [OF d p] .
qed

text \<open>When the limit is falsy, it normalizes the copy of the incoming query.\<close>

lemma unlimited_other:
  assumes "distinct (map fst q)" and "''__proto__'' \<notin> fst ` set q"
    and "(key, val) \<in> set q" and "cleanKey key \<noteq> ''__proto__''"
    and "\<forall>(key', val') \<in> set q.
           key' \<noteq> key \<longrightarrow> cleanKey key' \<noteq> cleanKey key \<and> key' \<noteq> cleanKey key"
  shows "map_of (own_entries (cleanQuery (JObj q))) (cleanKey key) = Some (cleanQuery val)"
  using forEach_only_write [OF assms(1,3,4,5), of "\<lparr>proto = None, own = q\<rparr>"]
  unfolding clean_plain [OF assms(1,2)] .

lemma no_limit_key:
  assumes "distinct (map fst q)" and "''__proto__'' \<notin> fst ` set q"
    and "''limit'' \<notin> fst ` set q" "''$limit'' \<notin> fst ` set q"
  shows "map_of (own_entries (cleanQuery (JObj q))) ''limit'' = None"
proof -
  have "\<forall>(key, val) \<in> set q. cleanKey key \<noteq> ''limit'' \<and> key \<noteq> ''limit''"
  proof (clarify)
    fix key val assume "(key, val) \<in> set q"
    from in_keys [OF this] assms(3,4) have "key \<noteq> ''limit'' \<and> key \<noteq> ''$limit''" by blast
    then show "cleanKey key \<noteq> ''limit'' \<and> key \<noteq> ''limit''" by (simp add: cleanKey_limit)
  qed
  from forEach_untouched [OF _ this, of "\<lparr>proto = None, own = q\<rparr>"] assms(3) show ?thesis
    unfolding clean_plain [OF assms(1,2)] by (simp add: map_of_eq_None_iff [THEN iffD2])
qed

lemma get_prop_absent: "k \<notin> fst ` set q \<Longrightarrow> get_prop q k = JUndefined"
  by (simp add: get_prop_def map_of_eq_None_iff [THEN iffD2])

lemma js_get_plain: "js_get \<lparr>proto = None, own = q\<rparr> k = get_prop q k"
  by (simp add: js_get_def get_prop_def split: option.splits)

lemma own_limited:
  "own (js_delete (js_put t ''limit'' v) ''$limit'') = obj_delete (obj_set (own t) ''limit'' v) ''$limit''"
  by (simp add: js_delete_def js_put_def)

text \<open>
  A key with the prefix is no key of the normalization of an object, unless the object
  has that key with one more \<open>$\<close> in front.
\<close>

lemma dollar_gone:
  assumes "distinct (map fst es)" and "''__proto__'' \<notin> fst ` set es"
    and "startsWith_dollar k" and "CHR ''$'' # k \<notin> fst ` set es"
  shows "map_of (own_entries (cleanQuery (JObj es))) k = None"
proof (cases "k \<in> fst ` set es")
  case True
  then obtain v where "(k, v) \<in> set es" by auto
  from split_list [OF this] obtain es1 es2 where es: "es = es1 @ (k, v) # es2" by blast
  from assms(1) have later: "k \<notin> fst ` set es2" unfolding es by simp
  have after: "\<forall>(key', val') \<in> set es2. cleanKey key' \<noteq> k \<and> key' \<noteq> k"
  proof (clarify, rule conjI)
    fix key' val' assume m: "(key', val') \<in> set es2"
    from in_keys [OF m] later show ne: "key' \<noteq> k" by blast
    from m have "(key', val') \<in> set es" unfolding es by simp
    then have ke: "key' \<in> fst ` set es" by (rule in_keys)
    show "cleanKey key' \<noteq> k"
    proof
      assume "cleanKey key' = k"
      from cleanKey_eq_key [OF this ne] ke assms(4) show False by blast
    qed
  qed
  have r: "own_entries (cleanQuery (JObj es))
      = own (foldl (\<lambda>result (key, val). clean_entry result key (cleanQuery val))
          \<lparr>proto = None, own = es\<rparr> es)"
    by (rule clean_plain [OF assms(1,2)])
  show ?thesis unfolding r unfolding es by (rule forEach_deleted [OF assms(3) after])
next
  case False
  have "\<forall>(key, val) \<in> set es. cleanKey key \<noteq> k \<and> key \<noteq> k"
  proof (clarify, rule conjI)
    fix key val assume m: "(key, val) \<in> set es"
    from in_keys [OF m] False show ne: "key \<noteq> k" by blast
    show "cleanKey key \<noteq> k"
    proof
      assume "cleanKey key = k"
      from cleanKey_eq_key [OF this ne] in_keys [OF m] assms(4) show False by blast
    qed
  qed
  from forEach_untouched [OF dollar_not_proto [OF assms(3)] this, of "\<lparr>proto = None, own = es\<rparr>"]
    False
  show ?thesis unfolding clean_plain [OF assms(1,2)]
    by (simp add: map_of_eq_None_iff [THEN iffD2])
qed

text \<open>
  Claim C10, as amended. For a query object, let \<open>limit\<close> be \<open>query.$limit || query.limit\<close>
  as read on the copy of the query; for a query without \<open>__proto__\<close> entry that is the
  query's own \<open>$limit\<close> or \<open>limit\<close>. When \<open>limit\<close> is truthy, the forwarded query has the
  entry \<open>limit\<close> with the (normalized) value \<open>getLimit\<close> returns for it. When \<open>limit\<close> is
  falsy, the forwarded query is the normalization by \<open>cleanQuery\<close> of the query without
  its \<open>__proto__\<close> entry: nothing is clamped, no default is injected, and a falsy \<open>$limit\<close>
  or \<open>limit\<close> entry is forwarded as \<open>cleanQuery\<close> forwards any entry. A query with no
  \<open>limit\<close>, \<open>$limit\<close> or \<open>__proto__\<close> key is forwarded without a \<open>limit\<close> entry. Every entry
  other than \<open>$limit\<close> and \<open>limit\<close> whose stripped key is not \<open>__proto__\<close> is forwarded
  under its stripped key with its normalized value, provided no other entry has that
  stripped key as its key or as its stripped key. No key with the prefix, \<open>$limit\<close>
  included, is a key of the forwarded query, unless the query has that key with one more
  \<open>$\<close> in front.
\<close>

theorem filterQuery_limit:
  assumes "query ps = JObj q" and "distinct (map fst q)"
  shows
  "(truthy (query_limit (Object_assign (JObj q)))
      \<longrightarrow> map_of (own_entries (filterQuery opts ps)) ''limit''
            = Some (cleanQuery (getLimit opts
                (query_limit (Object_assign (JObj q))) (paginate ps)))) \<and>
   (\<not> truthy (query_limit (Object_assign (JObj q)))
      \<longrightarrow> filterQuery opts ps = cleanQuery (JObj (obj_delete q ''__proto__''))) \<and>
   (''__proto__'' \<notin> fst ` set q
      \<longrightarrow> query_limit (Object_assign (JObj q))
            = jsOr (get_prop q ''$limit'') (get_prop q ''limit'')) \<and>
   (''limit'' \<notin> fst ` set q \<and> ''$limit'' \<notin> fst ` set q \<and> ''__proto__'' \<notin> fst ` set q
      \<longrightarrow> map_of (own_entries (filterQuery opts ps)) ''limit'' = None) \<and>
   ((key, val) \<in> set q \<and> key \<noteq> ''limit'' \<and> key \<noteq> ''$limit'' \<and>
    cleanKey key \<noteq> ''__proto__'' \<and>
    (\<forall>(key', val') \<in> set q.
        key' \<noteq> key \<longrightarrow> cleanKey key' \<noteq> cleanKey key \<and> key' \<noteq> cleanKey key)
      \<longrightarrow> map_of (own_entries (filterQuery opts ps)) (cleanKey key) = Some (cleanQuery val)) \<and>
   (startsWith_dollar k \<and> CHR ''$'' # k \<notin> fst ` set q
      \<longrightarrow> map_of (own_entries (filterQuery opts ps)) k = None)"
proof -
  let ?Q = "Object_assign (JObj q)"
  let ?limit = "query_limit ?Q"
  let ?q0 = "obj_delete q ''__proto__''"
  let ?q' = "obj_delete (obj_set ?q0 ''limit'' (getLimit opts ?limit (paginate ps))) ''$limit''"
  have own: "own ?Q = ?q0" by (rule assign_own [OF assms(2)])
  have d0: "distinct (map fst ?q0)" by (rule distinct_obj_delete [OF assms(2)])
  have p0: "''__proto__'' \<notin> fst ` set ?q0" by (simp add: keys_obj_delete)
  have on: "truthy ?limit \<Longrightarrow> filterQuery opts ps = cleanQuery (JObj ?q')"
    using assms(1) by (simp add: filterQuery_def Let_def own_limited own)
  have off: "\<not> truthy ?limit \<Longrightarrow> filterQuery opts ps = cleanQuery (JObj ?q0)"
    using assms(1) by (simp add: filterQuery_def Let_def own)
  have plain: "''__proto__'' \<notin> fst ` set q \<Longrightarrow> ?limit = jsOr (get_prop q ''$limit'') (get_prop q ''limit'')"
    by (simp add: assign_plain [OF assms(2)] query_limit_def js_get_plain)
  have c1: "truthy ?limit \<longrightarrow> map_of (own_entries (filterQuery opts ps)) ''limit''
      = Some (cleanQuery (getLimit opts ?limit (paginate ps)))"
  proof
    assume t: "truthy ?limit"
    show "map_of (own_entries (filterQuery opts ps)) ''limit''
      = Some (cleanQuery (getLimit opts ?limit (paginate ps)))"
      unfolding on [OF t] by (rule limited_limit [OF d0 p0])
  qed
  have c2: "\<not> truthy ?limit \<longrightarrow> filterQuery opts ps = cleanQuery (JObj ?q0)"
    using off by blast
  have c3: "''__proto__'' \<notin> fst ` set q
      \<longrightarrow> ?limit = jsOr (get_prop q ''$limit'') (get_prop q ''limit'')"
    using plain by blast
  have c4: "''limit'' \<notin> fst ` set q \<and> ''$limit'' \<notin> fst ` set q \<and> ''__proto__'' \<notin> fst ` set q
      \<longrightarrow> map_of (own_entries (filterQuery opts ps)) ''limit'' = None"
  proof
    assume a: "''limit'' \<notin> fst ` set q \<and> ''$limit'' \<notin> fst ` set q \<and> ''__proto__'' \<notin> fst ` set q"
    then have l: "''limit'' \<notin> fst ` set q" and dl: "''$limit'' \<notin> fst ` set q"
      and np: "''__proto__'' \<notin> fst ` set q" by blast+
    have f: "\<not> truthy ?limit"
      unfolding plain [OF np] using l dl by (simp add: get_prop_absent jsOr_def)
    have q0: "?q0 = q" by (rule obj_delete_absent [OF np])
    show "map_of (own_entries (filterQuery opts ps)) ''limit'' = None"
      unfolding off [OF f] q0 by (rule no_limit_key [OF assms(2) np l dl])
  qed
  have c5: "(key, val) \<in> set q \<and> key \<noteq> ''limit'' \<and> key \<noteq> ''$limit'' \<and>
    cleanKey key \<noteq> ''__proto__'' \<and>
    (\<forall>(key', val') \<in> set q.
        key' \<noteq> key \<longrightarrow> cleanKey key' \<noteq> cleanKey key \<and> key' \<noteq> cleanKey key)
      \<longrightarrow> map_of (own_entries (filterQuery opts ps)) (cleanKey key) = Some (cleanQuery val)"
  proof
    assume a: "(key, val) \<in> set q \<and> key \<noteq> ''limit'' \<and> key \<noteq> ''$limit'' \<and>
      cleanKey key \<noteq> ''__proto__'' \<and>
      (\<forall>(key', val') \<in> set q.
        key' \<noteq> key \<longrightarrow> cleanKey key' \<noteq> cleanKey key \<and> key' \<noteq> cleanKey key)"
    then have m: "(key, val) \<in> set q" and n1: "key \<noteq> ''limit''" and n2: "key \<noteq> ''$limit''"
      and np: "cleanKey key \<noteq> ''__proto__''"
      and o: "\<forall>(key', val') \<in> set q.
        key' \<noteq> key \<longrightarrow> cleanKey key' \<noteq> cleanKey key \<and> key' \<noteq> cleanKey key"
      by blast+
    from np have kp: "key \<noteq> ''__proto__''" using cleanKey_of_proto by auto
    from assms(2) m have "map_of q key = Some val" by simp
    with kp have "map_of ?q0 key = Some val" by (simp add: map_of_obj_delete)
    then have m0: "(key, val) \<in> set ?q0" by (rule map_of_SomeD)
    have o0: "\<forall>(key', val') \<in> set ?q0.
        key' \<noteq> key \<longrightarrow> cleanKey key' \<noteq> cleanKey key \<and> key' \<noteq> cleanKey key"
      using o set_obj_delete [of q "''__proto__''"] by blast
    show "map_of (own_entries (filterQuery opts ps)) (cleanKey key) = Some (cleanQuery val)"
    proof (cases "truthy ?limit")
      case True
      show ?thesis unfolding on [OF True] by (rule limited_other [OF d0 p0 m0 n1 n2 np o0])
    next
      case False
      show ?thesis unfolding off [OF False] by (rule unlimited_other [OF d0 p0 m0 np o0])
    qed
  qed
  have c6: "startsWith_dollar k \<and> CHR ''$'' # k \<notin> fst ` set q
      \<longrightarrow> map_of (own_entries (filterQuery opts ps)) k = None"
  proof
    assume a: "startsWith_dollar k \<and> CHR ''$'' # k \<notin> fst ` set q"
    then have dk: "startsWith_dollar k" and nk: "CHR ''$'' # k \<notin> fst ` set q" by blast+
    have nk0: "CHR ''$'' # k \<notin> fst ` set ?q0" using nk by (simp add: keys_obj_delete)
    show "map_of (own_entries (filterQuery opts ps)) k = None"
    proof (cases "truthy ?limit")
      case True
      have d: "distinct (map fst ?q')"
        using d0 by (simp add: distinct_obj_set distinct_obj_delete)
      have p: "''__proto__'' \<notin> fst ` set ?q'"
        using p0 by (simp add: keys_obj_delete keys_obj_set)
      have n: "CHR ''$'' # k \<notin> fst ` set ?q'"
        using nk0 by (simp add: keys_obj_delete keys_obj_set)
      show ?thesis unfolding on [OF True] by (rule dollar_gone [OF d p dk n])
    next
      case False
      show ?thesis unfolding off [OF False] by (rule dollar_gone [OF d0 p0 dk nk0])
    qed
  qed
  from c1 c2 c3 c4 c5 c6 show ?thesis by blast
qed

text \<open>
  The theorem of claim C10 on \<open>{$limit: 500, $status: 'paid'}\<close> and on
  \<open>{status: 'paid'}\<close>, with the policy \<open>{default: 10, max: 100}\<close>.
\<close>

theorem filterQuery_limit_witness:
  "map_of (own_entries (filterQuery (Some \<lparr>default_limit = Some (Fin 10), max_limit = Some (Fin 100)\<rparr>)
       \<lparr>query = JObj [(''$limit'', JNum (Fin 500)), (''$status'', JStr ''paid'')],
        paginate = JUndefined\<rparr>)) ''limit'' = Some (JNum (Fin 100)) \<and>
   map_of (own_entries (filterQuery (Some \<lparr>default_limit = Some (Fin 10), max_limit = Some (Fin 100)\<rparr>)
       \<lparr>query = JObj [(''$limit'', JNum (Fin 500)), (''$status'', JStr ''paid'')],
        paginate = JUndefined\<rparr>)) ''status'' = Some (JStr ''paid'') \<and>
   map_of (own_entries (filterQuery (Some \<lparr>default_limit = Some (Fin 10), max_limit = Some (Fin 100)\<rparr>)
       \<lparr>query = JObj [(''$limit'', JNum (Fin 500)), (''$status'', JStr ''paid'')],
        paginate = JUndefined\<rparr>)) ''$limit'' = None \<and>
   filterQuery (Some \<lparr>default_limit = Some (Fin 10), max_limit = Some (Fin 100)\<rparr>)
       \<lparr>query = JObj [(''status'', JStr ''paid'')], paginate = JUndefined\<rparr>
     = JObj [(''status'', JStr ''paid'')] \<and>
   map_of (own_entries (filterQuery (Some \<lparr>default_limit = Some (Fin 10), max_limit = Some (Fin 100)\<rparr>)
       \<lparr>query = JObj [(''status'', JStr ''paid'')], paginate = JUndefined\<rparr>)) ''limit'' = None"
  using
    filterQuery_limit [of
      "\<lparr>query = JObj [(''$limit'', JNum (Fin 500)), (''$status'', JStr ''paid'')],
        paginate = JUndefined\<rparr>"
      "[(''$limit'', JNum (Fin 500)), (''$status'', JStr ''paid'')]"
      "Some \<lparr>default_limit = Some (Fin 10), max_limit = Some (Fin 100)\<rparr>"
      "''$status''" "JStr ''paid''" "''$limit''"]
    filterQuery_limit [of
      "\<lparr>query = JObj [(''status'', JStr ''paid'')], paginate = JUndefined\<rparr>"
      "[(''status'', JStr ''paid'')]"
      "Some \<lparr>default_limit = Some (Fin 10), max_limit = Some (Fin 100)\<rparr>"]
  by (simp add: limit_defs eval_defs)

text \<open>
  Claim C10 as stated fails on \<open>{limit: 0, $a: 2, a: 1}\<close>: the forwarded query still has
  the entry \<open>limit: 0\<close>, and the entry \<open>$a: 2\<close> is lost to \<open>a: 1\<close>. It also fails on
  \<open>{__proto__: {limit: 500}}\<close>, a query with no limit key that is forwarded with
  \<open>limit: 100\<close>.
\<close>

theorem filterQuery_zero_limit_counterexample:
  "filterQuery (Some \<lparr>default_limit = Some (Fin 10), max_limit = Some (Fin 100)\<rparr>)
       \<lparr>query = JObj [(''limit'', JNum (Fin 0)), (''$a'', JNum (Fin 2)), (''a'', JNum (Fin 1))],
        paginate = JUndefined\<rparr>
     = JObj [(''limit'', JNum (Fin 0)), (''a'', JNum (Fin 1))] \<and>
   map_of (own_entries (filterQuery
       (Some \<lparr>default_limit = Some (Fin 10), max_limit = Some (Fin 100)\<rparr>)
       \<lparr>query = JObj [(''limit'', JNum (Fin 0)), (''$a'', JNum (Fin 2)), (''a'', JNum (Fin 1))],
        paginate = JUndefined\<rparr>)) ''limit'' \<noteq> None \<and>
   filterQuery (Some \<lparr>default_limit = Some (Fin 10), max_limit = Some (Fin 100)\<rparr>)
       \<lparr>query = JObj [(''__proto__'', JObj [(''limit'', JNum (Fin 500))])],
        paginate = JUndefined\<rparr>
     = JObj [(''limit'', JNum (Fin 100))]"
  by (simp add: limit_defs eval_defs)

section \<open>Properties of the resource services\<close>

text \<open>The copy of a payload from which a key was deleted.\<close>

lemma own_copy_without:
  "distinct (map fst payload) \<Longrightarrow>
   own (js_delete (Object_assign (JObj payload)) k) = obj_delete (obj_delete payload ''__proto__'') k"
  by (simp add: js_delete_def assign_own)

text \<open>
  Claim C5, as amended. On the orders resource, a patch whose payload has a truthy
  \<open>pay\<close> (such as \<open>pay: true\<close>, and \<open>pay: 1\<close> as well) issues the pay request and then the
  update request; the update request receives the payload as it came, and the pay
  request a copy of its entries without \<open>pay\<close> and without \<open>__proto__\<close> (an entry that
  \<open>Object.assign\<close> does not copy). A payload whose \<open>pay\<close> is absent or falsy issues the
  update request only. The \<open>update\<close> verb itself issues the update request and nothing
  else.
\<close>

theorem orders_patch_pay:
  "(truthy (get_prop payload ''pay'')
      \<longrightarrow> calls (orders_patch sdk eh id' (JObj payload))
            = [Call ''orders'' ''pay''
                 [id', JObj (own (js_delete (Object_assign (JObj payload)) ''pay''))],
               Call ''orders'' ''update'' [id', JObj payload]]) \<and>
   (distinct (map fst payload)
      \<longrightarrow> own (js_delete (Object_assign (JObj payload)) ''pay'')
            = obj_delete (obj_delete payload ''__proto__'') ''pay'') \<and>
   (\<not> truthy (get_prop payload ''pay'')
      \<longrightarrow> calls (orders_patch sdk eh id' (JObj payload))
            = [Call ''orders'' ''update'' [id', JObj payload]]) \<and>
   calls (orders_update sdk eh id' (JObj payload))
     = [Call ''orders'' ''update'' [id', JObj payload]]"
  by (simp add: orders_patch_def orders_update_def request_def Let_def own_copy_without)

text \<open>
  The theorem of claim C5 on \<open>{pay: true, amount: 500}\<close>, on \<open>{amount: 500}\<close> and on
  \<open>{pay: false, amount: 500}\<close>.
\<close>

theorem orders_patch_pay_witness:
  "calls (orders_patch accepting_pay (\<lambda>e. Returns (Rejected (Original e))) (JStr ''or_1'')
        (JObj [(''pay'', JBool True), (''amount'', JNum (Fin 500))]))
     = [Call ''orders'' ''pay'' [JStr ''or_1'', JObj [(''amount'', JNum (Fin 500))]],
        Call ''orders'' ''update''
          [JStr ''or_1'', JObj [(''pay'', JBool True), (''amount'', JNum (Fin 500))]]] \<and>
   calls (orders_patch accepting_pay (\<lambda>e. Returns (Rejected (Original e))) (JStr ''or_1'')
        (JObj [(''amount'', JNum (Fin 500))]))
     = [Call ''orders'' ''update'' [JStr ''or_1'', JObj [(''amount'', JNum (Fin 500))]]] \<and>
   calls (orders_patch accepting_pay (\<lambda>e. Returns (Rejected (Original e))) (JStr ''or_1'')
        (JObj [(''pay'', JBool False), (''amount'', JNum (Fin 500))]))
     = [Call ''orders'' ''update''
          [JStr ''or_1'', JObj [(''pay'', JBool False), (''amount'', JNum (Fin 500))]]]"
  using
    orders_patch_pay [of "[(''pay'', JBool True), (''amount'', JNum (Fin 500))]"
      accepting_pay "\<lambda>e. Returns (Rejected (Original e))" "JStr ''or_1''"]
    orders_patch_pay [of "[(''amount'', JNum (Fin 500))]"
      accepting_pay "\<lambda>e. Returns (Rejected (Original e))" "JStr ''or_1''"]
    orders_patch_pay [of "[(''pay'', JBool False), (''amount'', JNum (Fin 500))]"
      accepting_pay "\<lambda>e. Returns (Rejected (Original e))" "JStr ''or_1''"]
  by (simp add: get_prop_def obj_delete_def)

text \<open>
  Claim C5 as stated fails on \<open>{pay: 1, amount: 500}\<close>: the payload has no \<open>pay: true\<close>,
  and the pay request is issued all the same.
\<close>

theorem orders_patch_truthy_pay_counterexample:
  "get_prop [(''pay'', JNum (Fin 1)), (''amount'', JNum (Fin 500))] ''pay'' \<noteq> JBool True \<and>
   calls (orders_patch accepting_pay (\<lambda>e. Returns (Rejected (Original e))) (JStr ''or_1'')
        (JObj [(''pay'', JNum (Fin 1)), (''amount'', JNum (Fin 500))]))
     = [Call ''orders'' ''pay'' [JStr ''or_1'', JObj [(''amount'', JNum (Fin 500))]],
        Call ''orders'' ''update''
          [JStr ''or_1'', JObj [(''pay'', JNum (Fin 1)), (''amount'', JNum (Fin 500))]]]"
  by (simp add: orders_patch_def orders_update_def request_def get_prop_def Let_def
      js_delete_def js_put_def obj_set_def obj_delete_def Object_assign_def empty_object_def)

text \<open>
  Claim C6. On the orders resource, what patch returns is what its update returns: the
  handled promise of the update request alone. The promise of the pay request is dropped,
  and two SDKs that answer the update request alike give the same result of patch,
  whatever they answer to the pay request.
\<close>

theorem orders_patch_result:
  "returned (orders_patch sdk eh id' (JObj payload))
     = returned (orders_update sdk eh id' (JObj payload)) \<and>
   returned (orders_patch sdk eh id' (JObj payload))
     = Returns (catch_with (sdk (Call ''orders'' ''update'' [id', JObj payload])) eh) \<and>
   (truthy (get_prop payload ''pay'')
      \<longrightarrow> dropped (orders_patch sdk eh id' (JObj payload))
            = [catch_with
                 (sdk (Call ''orders'' ''pay''
                    [id', JObj (own (js_delete (Object_assign (JObj payload)) ''pay''))])) eh]) \<and>
   (sdk' (Call ''orders'' ''update'' [id', JObj payload])
      = sdk (Call ''orders'' ''update'' [id', JObj payload])
      \<longrightarrow> returned (orders_patch sdk' eh id' (JObj payload))
            = returned (orders_patch sdk eh id' (JObj payload)))"
  by (simp add: orders_patch_def orders_update_def request_def Let_def)

text \<open>
  The theorem of claim C6 with an SDK that declines the payment: patch resolves all the
  same, as it does with an SDK that accepts it, and the rejection is among the dropped
  promises.
\<close>

theorem orders_patch_result_witness:
  "returned (orders_patch refusing_pay (\<lambda>e. Returns (Rejected (Original e))) (JStr ''or_1'')
        (JObj [(''pay'', JBool True), (''amount'', JNum (Fin 500))]))
     = Returns (Resolved (JObj [(''id'', JStr ''or_1'')])) \<and>
   dropped (orders_patch refusing_pay (\<lambda>e. Returns (Rejected (Original e))) (JStr ''or_1'')
        (JObj [(''pay'', JBool True), (''amount'', JNum (Fin 500))]))
     = [Rejected (Original (JObj [(''type'', JStr ''StripeCardError'')]))] \<and>
   returned (orders_patch accepting_pay (\<lambda>e. Returns (Rejected (Original e))) (JStr ''or_1'')
        (JObj [(''pay'', JBool True), (''amount'', JNum (Fin 500))]))
     = returned (orders_patch refusing_pay (\<lambda>e. Returns (Rejected (Original e))) (JStr ''or_1'')
        (JObj [(''pay'', JBool True), (''amount'', JNum (Fin 500))]))"
  using orders_patch_result [of refusing_pay "\<lambda>e. Returns (Rejected (Original e))"
      "JStr ''or_1''" "[(''pay'', JBool True), (''amount'', JNum (Fin 500))]" accepting_pay]
  by (simp add: get_prop_def refusing_pay_def accepting_pay_def catch_with_def
      orders_update_def request_def)

text \<open>
  Claim C7. The patch of the transfers service and of the prices service is their update
  on the same arguments, of which update reads the first two. The \<open>$patch\<close> of the base adapter runs \<open>_update\<close> as \<open>$update\<close> does
  when there is no \<open>_patch\<close>, and throws not-implemented exactly when there is neither.
\<close>

theorem patch_is_update:
  "transfers_patch sdk eh [id', data] = transfers_update sdk eh id' data \<and>
   transfers_patch sdk eh rest = transfers_update sdk eh (arg rest 0) (arg rest 1) \<and>
   prices_patch sdk eh [id', data] = prices_update sdk eh id' data \<and>
   prices_patch sdk eh rest = prices_update sdk eh (arg rest 0) (arg rest 1) \<and>
   (internal_patch a = None \<and> internal_update a \<noteq> None
      \<longrightarrow> dollar_patch a args = dollar_update a args) \<and>
   ((\<exists>msg d. returned (dollar_patch a args) = Throws (FeathersError NotImplemented msg d))
      \<longleftrightarrow> internal_patch a = None \<and> internal_update a = None)"
  by (auto simp: transfers_patch_def prices_patch_def prices__patch_def prices_update_def
      arg_def dollar_patch_def dollar_update_def guarded_def not_implemented_def
      split: option.splits)

text \<open>
  The theorem of claim C7 on an adapter that only has \<open>_update\<close>, and the one without
  either method.
\<close>

theorem patch_is_update_witness:
  "dollar_patch
       \<lparr>internal_patch = None,
        internal_update = Some (\<lambda>args. ([Call ''prices'' ''update'' args], Resolved JNull))\<rparr>
       [JStr ''price_1'', JObj []]
     = dollar_update
       \<lparr>internal_patch = None,
        internal_update = Some (\<lambda>args. ([Call ''prices'' ''update'' args], Resolved JNull))\<rparr>
       [JStr ''price_1'', JObj []] \<and>
   returned (dollar_patch \<lparr>internal_patch = None, internal_update = None\<rparr>
       [JStr ''price_1'', JObj []])
     = Throws (FeathersError NotImplemented (JStr ''Patch method not implemented'') JUndefined)"
  using
    patch_is_update [of _ _ _ _ _
      "\<lparr>internal_patch = None,
        internal_update = Some (\<lambda>args. ([Call ''prices'' ''update'' args], Resolved JNull))\<rparr>"
      "[JStr ''price_1'', JObj []]"]
  by (simp add: dollar_patch_def not_implemented_def)

text \<open>
  Claim C8. \<open>remove(id)\<close> on the transfers resource issues exactly one request,
  \<open>createReversal(id)\<close>, and returns its handled promise.
\<close>

theorem transfers_remove_reverses:
  "calls (transfers_remove sdk eh id') = [Call ''transfers'' ''createReversal'' [id']] \<and>
   returned (transfers_remove sdk eh id')
     = Returns (catch_with (sdk (Call ''transfers'' ''createReversal'' [id'])) eh)"
  by (simp add: transfers_remove_def request_def)

section \<open>Properties of construction\<close>

text \<open>
  Spreading entries with distinct keys over an object: a key they do not have keeps its
  value, a key they have takes theirs.
\<close>

lemma overwrite_absent:
  "k \<notin> fst ` set es \<Longrightarrow>
   map_of (foldl (\<lambda>obj (key, val). obj_set obj key val) init es) k = map_of init k"
  by (induction es arbitrary: init) (auto simp: map_of_obj_set)

lemma overwrite_present:
  "distinct (map fst es) \<Longrightarrow> map_of es k = Some v \<Longrightarrow>
   map_of (foldl (\<lambda>obj (key, val). obj_set obj key val) init es) k = Some v"
proof (induction es arbitrary: init)
  case Nil
  then show ?case by simp
next
  case (Cons e es)
  obtain key val where e: "e = (key, val)" by (cases e)
  show ?case
  proof (cases "k = key")
    case True
    with Cons.prems e have "k \<notin> fst ` set es" and "v = val" by auto
    with True e show ?thesis by (simp add: overwrite_absent map_of_obj_set)
  next
    case False
    with Cons e show ?thesis by simp
  qed
qed

text \<open>An index key is made of digits, so neither \<open>secretKey\<close> nor \<open>stripe\<close> is one.\<close>

lemma digit_not_s: "d < 10 \<Longrightarrow> char_of (48 + d :: nat) \<noteq> CHR ''s''"
proof -
  assume "d < 10"
  then have "d \<in> {0, 1, 2, 3, 4, 5, 6, 7, 8, 9}" by auto
  then show ?thesis by (auto simp: char_of_def)
qed

lemma index_key_digits: "CHR ''s'' \<notin> set (index_key n)"
proof (induction n rule: index_key.induct)
  case (1 n)
  show ?case
  proof (cases "n < 10")
    case True
    then show ?thesis using digit_not_s [of n] by (subst index_key.simps) simp
  next
    case False
    have "n mod 10 < 10" by simp
    from digit_not_s [OF this] 1 False show ?thesis by (subst index_key.simps) simp
  qed
qed

lemma no_index_key: "CHR ''s'' \<in> set k \<Longrightarrow> k \<notin> fst ` set (zip (map index_key ns) xs)"
proof
  assume s: "CHR ''s'' \<in> set k" and "k \<in> fst ` set (zip (map index_key ns) xs)"
  then obtain x where "(k, x) \<in> set (zip (map index_key ns) xs)" by force
  then have "k \<in> set (map index_key ns)" by (rule set_zip_leftD)
  with s index_key_digits show False by auto
qed

text \<open>What the constructor of the adapter reads in \<open>opts\<close> is what the configuration provides.\<close>

lemma get_prop_spread:
  assumes "\<forall>cfg. v = JObj cfg \<longrightarrow> distinct (map fst cfg)" and "CHR ''s'' \<in> set k"
    and "k \<noteq> ''paginate''"
  shows "truthy (get_prop (spread_over default_opts v) k) = provides v k"
proof (cases v)
  case (JObj cfg)
  with assms(1) have d: "distinct (map fst cfg)" by simp
  show ?thesis
  proof (cases "map_of cfg k")
    case None
    then have "k \<notin> fst ` set cfg" by (simp add: map_of_eq_None_iff)
    from overwrite_absent [OF this, of default_opts] None assms(3) JObj show ?thesis
      by (simp add: spread_over_def get_prop_def default_opts_def)
  next
    case (Some x)
    from overwrite_present [OF d Some, of default_opts] Some JObj show ?thesis
      by (simp add: spread_over_def get_prop_def)
  qed
next
  case (JArr items)
  from overwrite_absent [OF no_index_key [OF assms(2)], of default_opts] assms(3) JArr
  show ?thesis by (simp add: spread_over_def get_prop_def default_opts_def)
next
  case (JStr s)
  from overwrite_absent [OF no_index_key [OF assms(2)], of default_opts] assms(3) JStr
  show ?thesis by (simp add: spread_over_def get_prop_def default_opts_def)
qed (use assms(3) in \<open>simp_all add: spread_over_def get_prop_def default_opts_def\<close>)

text \<open>
  Claim C9. Whatever is passed as configuration (an object has distinct keys), the
  constructor of the base adapter throws if and only if the configuration provides
  neither \<open>secretKey\<close> nor \<open>stripe\<close>, and the constructor of the transfers service if and
  only if it provides no \<open>secretKey\<close>. Neither constructor issues a request, before the
  check or after it.
\<close>

theorem construction_throws:
  assumes "\<forall>cfg. opts_arg = JObj cfg \<longrightarrow> distinct (map fst cfg)"
  shows
  "((\<exists>e. returned (StripeAdapter_new opts_arg) = Throws e)
      \<longleftrightarrow> \<not> provides opts_arg ''secretKey'' \<and> \<not> provides opts_arg ''stripe'') \<and>
   calls (StripeAdapter_new opts_arg) = [] \<and>
   ((\<exists>e. returned (Service_new opts_arg) = Throws e) \<longleftrightarrow> \<not> provides opts_arg ''secretKey'') \<and>
   calls (Service_new opts_arg) = []"
proof -
  have k: "truthy (get_prop (spread_over default_opts opts_arg) ''secretKey'')
      = provides opts_arg ''secretKey''"
    by (rule get_prop_spread [OF assms]) simp_all
  have s: "truthy (get_prop (spread_over default_opts opts_arg) ''stripe'')
      = provides opts_arg ''stripe''"
    by (rule get_prop_spread [OF assms]) simp_all
  have a: "(\<exists>e. returned (StripeAdapter_new opts_arg) = Throws e)
      \<longleftrightarrow> \<not> provides opts_arg ''secretKey'' \<and> \<not> provides opts_arg ''stripe''"
    using k s by (auto simp: StripeAdapter_new_def Let_def)
  have b: "(\<exists>e. returned (Service_new opts_arg) = Throws e) \<longleftrightarrow> \<not> provides opts_arg ''secretKey''"
    by (cases opts_arg) (simp_all add: Service_new_def get_prop_def)
  from a b show ?thesis by (simp add: StripeAdapter_new_def Service_new_def Let_def)
qed

text \<open>
  The theorem of claim C9 on a configuration without credential, on one with a client
  handle (enough for the base adapter, not for the transfers service) and on one with a
  secret key.
\<close>

theorem construction_throws_witness:
  "returned (StripeAdapter_new (JObj [(''paginate'', JBool False)]))
     = Throws (Error ''Stripe service option `secretKey` or `stripe` needs to be provided'') \<and>
   returned (StripeAdapter_new (JObj [(''stripe'', JObj [(''transfers'', JObj [])])]))
     = Returns \<lparr>stripe = Provided (JObj [(''transfers'', JObj [])]),
         props = [(''options'', JObj
           [(''paginate'', JObj [(''default'', JNum (Fin 10)), (''max'', JNum (Fin 100))]),
            (''stripe'', JObj [(''transfers'', JObj [])])])]\<rparr> \<and>
   returned (Service_new (JObj [(''stripe'', JObj [(''transfers'', JObj [])])]))
     = Throws (Error ''Stripe `secretKey` needs to be provided'') \<and>
   returned (Service_new (JObj [(''secretKey'', JStr ''sk_test_1'')]))
     = Returns \<lparr>stripe = Stripe (JStr ''sk_test_1''), props = [(''paginate'', JObj [])]\<rparr>"
  using construction_throws [of "JObj [(''paginate'', JBool False)]"]
    construction_throws [of "JObj [(''stripe'', JObj [(''transfers'', JObj [])])]"]
    construction_throws [of "JObj [(''secretKey'', JStr ''sk_test_1'')]"]
  by (simp add: StripeAdapter_new_def Service_new_def spread_over_def default_opts_def
      get_prop_def obj_set_def)

end

